theory Spec2Isabelle
  imports Complex_Main "HOL-Library.AList"
begin

section \<open>Text\<close>

text \<open>
  A Python \<open>str\<close> is modelled as a \<open>string\<close> whose characters are the code points
  U+0000 to U+00FF. The character classes below are the ones Python's \<open>re\<close> module
  and \<open>str\<close> methods use on that range: \<open>\s\<close>, \<open>str.strip()\<close> and \<open>str.split()\<close>
  share one notion of whitespace, \<open>\w\<close> is alphanumeric or underscore, \<open>\d\<close> is a
  decimal digit, and \<open>.\<close> is anything but a line feed.
\<close>

definition code :: "char \<Rightarrow> nat" where
  "code c = of_char c"

definition is_space :: "char \<Rightarrow> bool" where
  "is_space c = ((9 \<le> code c \<and> code c \<le> 13) \<or> (28 \<le> code c \<and> code c \<le> 32)
     \<or> code c = 133 \<or> code c = 160)"

definition is_digit :: "char \<Rightarrow> bool" where
  "is_digit c = (48 \<le> code c \<and> code c \<le> 57)"

definition is_word :: "char \<Rightarrow> bool" where
  "is_word c = (is_digit c \<or> (65 \<le> code c \<and> code c \<le> 90) \<or> code c = 95
     \<or> (97 \<le> code c \<and> code c \<le> 122)
     \<or> code c = 170 \<or> code c = 178 \<or> code c = 179 \<or> code c = 181
     \<or> code c = 185 \<or> code c = 186 \<or> (188 \<le> code c \<and> code c \<le> 190)
     \<or> (192 \<le> code c \<and> code c \<le> 214) \<or> (216 \<le> code c \<and> code c \<le> 246)
     \<or> 248 \<le> code c)"

definition is_upper :: "char \<Rightarrow> bool" where
  "is_upper c = ((65 \<le> code c \<and> code c \<le> 90)
     \<or> (192 \<le> code c \<and> code c \<le> 222 \<and> code c \<noteq> 215))"

definition lower_char :: "char \<Rightarrow> char" where
  "lower_char c = (if is_upper c then char_of (code c + 32) else c)"

text \<open>\<open>str.lower()\<close>\<close>

definition lower :: "string \<Rightarrow> string" where
  "lower s = map lower_char s"

text \<open>\<open>str.strip()\<close>\<close>

definition strip :: "string \<Rightarrow> string" where
  "strip s = rev (dropWhile is_space (rev (dropWhile is_space s)))"

text \<open>
  \<open>str.split()\<close> without a separator: the maximal runs of characters that are not
  whitespace, in order. The first argument of \<open>split_aux\<close> is the run being read.
\<close>

fun split_aux :: "string \<Rightarrow> string \<Rightarrow> string list" where
  "split_aux w [] = (if w = [] then [] else [w])"
| "split_aux w (c # cs) =
     (if is_space c then (if w = [] then split_aux [] cs else w # split_aux [] cs)
      else split_aux (w @ [c]) cs)"

definition split :: "string \<Rightarrow> string list" where
  "split s = split_aux [] s"

text \<open>\<open>sep.join(xs)\<close>\<close>

fun join :: "string \<Rightarrow> string list \<Rightarrow> string" where
  "join sep [] = []"
| "join sep [x] = x"
| "join sep (x # y # ys) = x @ sep @ join sep (y # ys)"

text \<open>The decimal text of an integer, as an f-string prints it.\<close>

definition digit_char :: "nat \<Rightarrow> char" where
  "digit_char n = ''0123456789'' ! n"

function decimal :: "nat \<Rightarrow> string" where
  "decimal n = (if n < 10 then [digit_char n] else decimal (n div 10) @ [digit_char (n mod 10)])"
  by pat_completeness auto
termination
  by (relation "measure id") auto

declare decimal.simps [simp del]

definition str_int :: "int \<Rightarrow> string" where
  "str_int i = (if i < 0 then ''-'' @ decimal (nat (- i)) else decimal (nat i))"

text \<open>The section sign U+00A7 that starts a colour code, and the double quote.\<close>

definition sec :: string where
  "sec = [CHR 0xA7]"

definition dq :: string where
  "dq = [CHR 0x22]"

text \<open>
  Python's \<open>float\<close> is IEEE binary64. \<open>float64 x\<close> is the binary64 number nearest to the
  real \<open>x\<close>, ties going to the even significand; it is what an arithmetic operation
  returns when its exact result is \<open>x\<close> and lies below \<open>2 ^ 1024\<close> in magnitude.
  \<open>fsub\<close> is the subtraction of two floats.
\<close>

definition round_even :: "real \<Rightarrow> int" where
  "round_even x =
     (if x - of_int \<lfloor>x\<rfloor> < 1 / 2 then \<lfloor>x\<rfloor>
      else if 1 / 2 < x - of_int \<lfloor>x\<rfloor> then \<lfloor>x\<rfloor> + 1
      else if even \<lfloor>x\<rfloor> then \<lfloor>x\<rfloor>
      else \<lfloor>x\<rfloor> + 1)"

definition float_exponent :: "real \<Rightarrow> int" where
  "float_exponent x = max \<lfloor>log 2 \<bar>x\<bar>\<rfloor> (- 1022)"

definition float64 :: "real \<Rightarrow> real" where
  "float64 x =
     (if x = 0 then 0
      else of_int (round_even (x / 2 powr of_int (float_exponent x - 52)))
             * 2 powr of_int (float_exponent x - 52))"

definition fsub :: "real \<Rightarrow> real \<Rightarrow> real" where
  "fsub a b = float64 (a - b)"

section \<open>Configuration\<close>

definition spawn_point :: string where
  "spawn_point = ''0 64 -3''"

definition rtp_radius :: int where
  "rtp_radius = 35000"

definition tpa_timeout :: real where
  "tpa_timeout = 30"

definition sweep_sleep :: real where
  "sweep_sleep = 10"

section \<open>State\<close>

text \<open>
  The fields of \<open>CommandHandler\<close>, the two CSV files and the commands written to the
  standard input of the process, oldest first. A Python \<open>dict\<close> that the code iterates is
  an association list in insertion order (\<open>AList.update\<close> assigns, \<open>AList.delete\<close>
  removes, \<open>map_of\<close> reads); \<open>pending_warps\<close> is only read and written by key, so it is
  a map. A file is \<open>None\<close> while it does not exist and otherwise the rows the \<open>csv\<close>
  reader yields for it; the \<open>csv\<close> module's quoting is taken to be lossless.
  Time stamps are the values of \<open>time.time()\<close>: binary64 numbers, each taken as the real
  number it stands for. Log records are not part of the state.
\<close>

record state =
  homes :: "(string \<times> string) list"
  warps :: "(string \<times> string) list"
  pending_homes :: "string set"
  pending_warps :: "string \<rightharpoonup> string"
  tpa_requests :: "(string \<times> (string \<times> real)) list"
  homes_file :: "string list list option"
  warps_file :: "string list list option"
  out :: "string list"

text \<open>What a handler reads from outside: the clock and the two draws of \<open>cmd_rtp\<close>.\<close>

record env =
  now :: real
  draw_x :: nat
  draw_z :: nat

datatype exn = TypeError string | KeyError string | ConnectionResetError

text \<open>
  \<open>str(e)\<close>. The only \<open>KeyError\<close> that reaches it carries the key \<open>spawn\<close>, whose
  \<open>repr\<close> is the key in single quotes. \<open>ConnectionResetError\<close> is what
  \<open>StreamWriter.drain\<close> raises once the pipe to the process is lost.
\<close>

fun str_exn :: "exn \<Rightarrow> string" where
  "str_exn (TypeError m) = m"
| "str_exn (KeyError k) = [CHR 0x27] @ k @ [CHR 0x27]"
| "str_exn ConnectionResetError = ''Connection lost''"

definition init :: state where
  "init = \<lparr>homes = [], warps = [], pending_homes = {}, pending_warps = Map.empty,
     tpa_requests = [], homes_file = None, warps_file = None, out = []\<rparr>"

section \<open>Process bridge\<close>

text \<open>
  \<open>execute\<close>, \<open>send_message\<close> and the handlers and loops built on them are the methods
  on a bridge that takes every write: the process is attached and its pipe is open.
  What the methods do on a bridge that is not attached, or whose pipe is lost, is
  modelled after them, in the section on the failing bridge.
\<close>

definition execute :: "state \<Rightarrow> string \<Rightarrow> state" where
  "execute s command = s\<lparr>out := out s @ [command]\<rparr>"

definition tellraw :: "string \<Rightarrow> string \<Rightarrow> string" where
  "tellraw player message =
     ''tellraw '' @ player @ '' {'' @ dq @ ''text'' @ dq @ '':'' @ dq @ message @ dq @ ''}''"

definition send_message :: "state \<Rightarrow> string \<Rightarrow> string \<Rightarrow> state" where
  "send_message s player message = execute s (tellraw player message)"

section \<open>Teleport consent\<close>

definition cmd_tpa :: "state \<Rightarrow> env \<Rightarrow> string \<Rightarrow> string list \<Rightarrow> state" where
  "cmd_tpa s e player args =
     (case args of
        [] \<Rightarrow> send_message s player (sec @ ''cUsage: .tpa <player>'')
      | target # _ \<Rightarrow>
          if target = player
          then send_message s player (sec @ ''cYou cannot teleport to yourself!'')
          else if (case map_of (tpa_requests s) target of
                     Some (existing_requester, _) \<Rightarrow> existing_requester = player
                   | None \<Rightarrow> False)
          then send_message s player
                 (sec @ ''cYou already have a pending request to '' @ target @ ''!'')
          else
            send_message
              (send_message
                 (s\<lparr>tpa_requests := AList.update target (player, now e) (tpa_requests s)\<rparr>)
                 player (sec @ ''aTeleport request sent to '' @ target @ ''!''))
              target
              (sec @ ''e'' @ player @ '' '' @ sec @ ''ahas requested to teleport to you. Use ''
                 @ sec @ ''e.tpaccept '' @ sec @ ''aor '' @ sec @ ''e.tpdeny''))"

definition cmd_tpaccept :: "state \<Rightarrow> string \<Rightarrow> state" where
  "cmd_tpaccept s player =
     (case map_of (tpa_requests s) player of
        None \<Rightarrow> send_message s player (sec @ ''cNo pending teleport requests!'')
      | Some (requester, _) \<Rightarrow>
          send_message
            (send_message
               (execute (s\<lparr>tpa_requests := AList.delete player (tpa_requests s)\<rparr>)
                  (''tp '' @ requester @ '' '' @ player))
               player (sec @ ''aAccepted '' @ requester @ [CHR 0x27] @ ''s teleport request!''))
            requester (sec @ ''e'' @ player @ '' '' @ sec
              @ ''ahas accepted your teleport request!''))"

definition cmd_tpdeny :: "state \<Rightarrow> string \<Rightarrow> state" where
  "cmd_tpdeny s player =
     (case map_of (tpa_requests s) player of
        None \<Rightarrow> send_message s player (sec @ ''cNo pending teleport requests!'')
      | Some (requester, _) \<Rightarrow>
          send_message
            (send_message (s\<lparr>tpa_requests := AList.delete player (tpa_requests s)\<rparr>)
               player (sec @ ''cDenied '' @ requester @ [CHR 0x27] @ ''s teleport request!''))
            requester (sec @ ''e'' @ player @ '' '' @ sec @ ''cdenied your teleport request!''))"

text \<open>
  One pass of the loop body of \<open>check_tpa_timeouts\<close> after its sleep: the targets
  whose request is older than the timeout are collected first, then each is popped and
  both parties are told. \<open>dict.pop\<close> raises \<open>KeyError\<close> on a missing key.
\<close>

definition expired_targets :: "real \<Rightarrow> (string \<times> (string \<times> real)) list \<Rightarrow> string list" where
  "expired_targets current_time reqs =
     map fst (filter (\<lambda>(target, (requester, timestamp)).
                        fsub current_time timestamp > tpa_timeout) reqs)"

fun expire :: "string list \<Rightarrow> state \<Rightarrow> exn + state" where
  "expire [] s = Inr s"
| "expire (target # rest) s =
     (case map_of (tpa_requests s) target of
        None \<Rightarrow> Inl (KeyError target)
      | Some (requester, _) \<Rightarrow>
          expire rest
            (send_message
               (send_message (s\<lparr>tpa_requests := AList.delete target (tpa_requests s)\<rparr>)
                  requester (sec @ ''cYour TPA request to '' @ target @ '' has expired.''))
               target (sec @ ''cTPA request from '' @ requester @ '' has expired.'')))"

definition sweep :: "real \<Rightarrow> state \<Rightarrow> exn + state" where
  "sweep current_time s = expire (expired_targets current_time (tpa_requests s)) s"

text \<open>
  The \<open>while True\<close> loop of \<open>check_tpa_timeouts\<close>, run for a given number of rounds on
  a clock that only \<open>asyncio.sleep\<close> advances: each round sleeps, reads the clock and
  sweeps. An exception ends the loop.
\<close>

fun check_tpa_timeouts :: "nat \<Rightarrow> real \<Rightarrow> state \<Rightarrow> exn + (real \<times> state)" where
  "check_tpa_timeouts 0 clock s = Inr (clock, s)"
| "check_tpa_timeouts (Suc n) clock s =
     (case sweep (clock + sweep_sleep) s of
        Inl ex \<Rightarrow> Inl ex
      | Inr s' \<Rightarrow> check_tpa_timeouts n (clock + sweep_sleep) s')"

section \<open>Record store\<close>

text \<open>
  \<open>save_homes\<close> and \<open>save_warps\<close> open the file for writing, which empties it, and
  write one row per entry. Unpacking \<open>pos.split()\<close> into three names raises
  \<open>ValueError\<close> unless there are exactly three parts; the \<open>except\<close> clause ends the
  function there, and the rows written so far stay in the file.
\<close>

fun home_rows :: "(string \<times> string) list \<Rightarrow> string list list" where
  "home_rows [] = []"
| "home_rows ((player, pos) # rest) =
     (case split pos of
        [x, y, z] \<Rightarrow> [player, x, y, z] # home_rows rest
      | _ \<Rightarrow> [])"

definition save_homes :: "state \<Rightarrow> state" where
  "save_homes s = s\<lparr>homes_file := Some (home_rows (homes s))\<rparr>"

fun warp_rows :: "(string \<times> string) list \<Rightarrow> string list list" where
  "warp_rows [] = []"
| "warp_rows ((name, pos) # rest) =
     (if name = ''spawn'' \<and> pos = spawn_point then warp_rows rest
      else (case split pos of
              [x, y, z] \<Rightarrow> [name, x, y, z] # warp_rows rest
            | _ \<Rightarrow> []))"

definition save_warps :: "state \<Rightarrow> state" where
  "save_warps s = s\<lparr>warps_file := Some (warp_rows (warps s))\<rparr>"

fun read_homes :: "string list list \<Rightarrow> (string \<times> string) list \<Rightarrow> (string \<times> string) list" where
  "read_homes [] d = d"
| "read_homes (row # rows) d =
     read_homes rows
       (case row of
          [player, x, y, z] \<Rightarrow> AList.update player (x @ '' '' @ y @ '' '' @ z) d
        | _ \<Rightarrow> d)"

definition load_homes :: "state \<Rightarrow> state" where
  "load_homes s =
     (case homes_file s of
        None \<Rightarrow> s
      | Some rows \<Rightarrow> s\<lparr>homes := read_homes rows (homes s)\<rparr>)"

fun read_warps :: "string list list \<Rightarrow> (string \<times> string) list \<Rightarrow> (string \<times> string) list" where
  "read_warps [] d = d"
| "read_warps (row # rows) d =
     read_warps rows
       (case row of
          [name, x, y, z] \<Rightarrow> AList.update (lower name) (x @ '' '' @ y @ '' '' @ z) d
        | _ \<Rightarrow> d)"

definition load_warps :: "state \<Rightarrow> state" where
  "load_warps s =
     (let w = (case warps_file s of None \<Rightarrow> warps s | Some rows \<Rightarrow> read_warps rows (warps s))
      in s\<lparr>warps := (if map_of w ''spawn'' = None then AList.update ''spawn'' spawn_point w
                      else w)\<rparr>)"

section \<open>Homes and warps\<close>

definition cmd_sethome :: "state \<Rightarrow> string \<Rightarrow> state" where
  "cmd_sethome s player =
     send_message
       ((execute s (''data get entity '' @ player @ '' Pos''))
          \<lparr>pending_homes := insert player (pending_homes s)\<rparr>)
       player (sec @ ''aScanning your position...'')"

definition cmd_home :: "state \<Rightarrow> string \<Rightarrow> state" where
  "cmd_home s player =
     (case map_of (homes s) player of
        Some pos \<Rightarrow>
          send_message (execute s (''tp '' @ player @ '' '' @ pos))
            player (sec @ ''aTeleported to home!'')
      | None \<Rightarrow> send_message s player (sec @ ''cHome not set! Use .sethome''))"

definition cmd_setwarp :: "state \<Rightarrow> string \<Rightarrow> string list \<Rightarrow> state" where
  "cmd_setwarp s player args =
     (case args of
        [] \<Rightarrow> send_message s player (sec @ ''cUsage: .setwarp <name>'')
      | name # _ \<Rightarrow>
          (let warp_name = lower name in
           send_message
             ((execute s (''data get entity '' @ player @ '' Pos''))
                \<lparr>pending_warps := (pending_warps s)(player \<mapsto> warp_name)\<rparr>)
             player
             (sec @ ''aScanning position for warp '' @ [CHR 0x27] @ warp_name @ [CHR 0x27]
                @ ''...'')))"

definition cmd_warp :: "state \<Rightarrow> string \<Rightarrow> string list \<Rightarrow> state" where
  "cmd_warp s player args =
     (case args of
        [] \<Rightarrow> send_message s player (sec @ ''cUsage: .warp <name>'')
      | name # _ \<Rightarrow>
          (let warp_name = lower name in
           case map_of (warps s) warp_name of
             Some pos \<Rightarrow>
               send_message (execute s (''tp '' @ player @ '' '' @ pos))
                 player
                 (sec @ ''aTeleported to warp '' @ [CHR 0x27] @ warp_name @ [CHR 0x27] @ ''!'')
           | None \<Rightarrow>
               send_message s player
                 (sec @ ''cWarp '' @ [CHR 0x27] @ warp_name @ [CHR 0x27] @ '' not found!'')))"

definition cmd_warps :: "state \<Rightarrow> string \<Rightarrow> state" where
  "cmd_warps s player =
     send_message s player
       (sec @ ''aAvailable warps: '' @ sec @ ''e'' @ join '', '' (map fst (warps s)))"

definition cmd_spawn :: "state \<Rightarrow> string \<Rightarrow> exn + state" where
  "cmd_spawn s player =
     (case map_of (warps s) ''spawn'' of
        None \<Rightarrow> Inl (KeyError ''spawn'')
      | Some pos \<Rightarrow>
          Inr (send_message (execute s (''tp '' @ player @ '' '' @ pos))
                 player (sec @ ''aTeleported to spawn!'')))"

text \<open>\<open>random.randint(lo, hi)\<close> on a draw supplied from outside.\<close>

definition randint :: "int \<Rightarrow> int \<Rightarrow> nat \<Rightarrow> int" where
  "randint lo hi d = lo + int d mod (hi - lo + 1)"

definition cmd_rtp :: "state \<Rightarrow> env \<Rightarrow> string \<Rightarrow> state" where
  "cmd_rtp s e player =
     (let radius = rtp_radius;
          x = randint (- radius) radius (draw_x e);
          z = randint (- radius) radius (draw_z e)
      in send_message
           (execute s (''spreadplayers '' @ str_int x @ '' '' @ str_int z @ '' 0 100 false ''
                         @ player))
           player
           (sec @ ''aRandom teleported! '' @ sec @ ''e(X: '' @ str_int x @ '', Z: ''
              @ str_int z @ '')''))"

definition help_msg :: string where
  "help_msg = dq @ ''=== Server Commands ===, '' @ ''.spawn - Teleport to spawn, ''
     @ ''.sethome - Set home, '' @ ''.home - Teleport home, ''
     @ ''.setwarp <name> - Set warp, '' @ ''.warp <name> - Teleport to warp, ''
     @ ''.warps - List warps, '' @ ''.rtp - Random teleport, ''
     @ ''.tpa <player> - Request teleport, '' @ ''.tpaccept - Accept teleport request, ''
     @ ''.tpdeny - Deny teleport request, '' @ ''.help - Show this menu'' @ dq"

definition cmd_help :: "state \<Rightarrow> string \<Rightarrow> state" where
  "cmd_help s player = execute s (''tell '' @ player @ '' '' @ help_msg)"

section \<open>Command dispatcher\<close>

text \<open>
  \<open>getattr(self, f"cmd_{command}", None)\<close> finds one of the eleven \<open>cmd_\<close> methods
  or nothing.
\<close>

datatype handler =
  Tpa | Tpaccept | Tpdeny | Sethome | Home | Setwarp | Warp | Warps | Spawn | Rtp | Help

definition handlers :: "(string \<times> handler) list" where
  "handlers = [(''tpa'', Tpa), (''tpaccept'', Tpaccept), (''tpdeny'', Tpdeny),
     (''sethome'', Sethome), (''home'', Home), (''setwarp'', Setwarp), (''warp'', Warp),
     (''warps'', Warps), (''spawn'', Spawn), (''rtp'', Rtp), (''help'', Help)]"

definition getattr_cmd :: "string \<Rightarrow> handler option" where
  "getattr_cmd command = map_of handlers command"

text \<open>
  A method declared as \<open>(self, player)\<close> called with further positional arguments
  raises \<open>TypeError\<close> before its body runs; the count in the message includes \<open>self\<close>
  and \<open>player\<close>. The wording is that of CPython 3.10 and later.
\<close>

definition too_many :: "string \<Rightarrow> string list \<Rightarrow> exn" where
  "too_many name args =
     TypeError (''CommandHandler.'' @ name @ ''() takes 2 positional arguments but ''
                  @ decimal (2 + length args) @ '' were given'')"

fun call :: "handler \<Rightarrow> state \<Rightarrow> env \<Rightarrow> string \<Rightarrow> string list \<Rightarrow> exn + state" where
  "call Tpa s e player args = Inr (cmd_tpa s e player args)"
| "call Tpaccept s e player args =
     (if args = [] then Inr (cmd_tpaccept s player) else Inl (too_many ''cmd_tpaccept'' args))"
| "call Tpdeny s e player args =
     (if args = [] then Inr (cmd_tpdeny s player) else Inl (too_many ''cmd_tpdeny'' args))"
| "call Sethome s e player args =
     (if args = [] then Inr (cmd_sethome s player) else Inl (too_many ''cmd_sethome'' args))"
| "call Home s e player args =
     (if args = [] then Inr (cmd_home s player) else Inl (too_many ''cmd_home'' args))"
| "call Setwarp s e player args = Inr (cmd_setwarp s player args)"
| "call Warp s e player args = Inr (cmd_warp s player args)"
| "call Warps s e player args =
     (if args = [] then Inr (cmd_warps s player) else Inl (too_many ''cmd_warps'' args))"
| "call Spawn s e player args =
     (if args = [] then cmd_spawn s player else Inl (too_many ''cmd_spawn'' args))"
| "call Rtp s e player args =
     (if args = [] then Inr (cmd_rtp s e player) else Inl (too_many ''cmd_rtp'' args))"
| "call Help s e player args =
     (if args = [] then Inr (cmd_help s player) else Inl (too_many ''cmd_help'' args))"

text \<open>
  Every \<open>raise\<close> of a handler comes before its first effect, so the \<open>except\<close> clause
  runs in the state of the call.
\<close>

definition handle_command :: "state \<Rightarrow> env \<Rightarrow> string \<Rightarrow> string \<Rightarrow> string list \<Rightarrow> state" where
  "handle_command s e player command args =
     (case getattr_cmd command of
        Some h \<Rightarrow>
          (case call h s e player args of
             Inr s' \<Rightarrow> s'
           | Inl ex \<Rightarrow> send_message s player (sec @ ''cError: '' @ str_exn ex))
      | None \<Rightarrow> send_message s player (sec @ ''cUnknown command: .'' @ command))"

section \<open>Output classifier\<close>

text \<open>\<open>lit l s\<close> reads the literal \<open>l\<close> at the front of \<open>s\<close> and returns the rest.\<close>

fun lit :: "string \<Rightarrow> string \<Rightarrow> string option" where
  "lit [] s = Some s"
| "lit (c # cs) [] = None"
| "lit (c # cs) (d # ds) = (if c = d then lit cs ds else None)"

text \<open>
  \<open>re.search\<close> tries the pattern at each position from the left and returns the first
  match.
\<close>

fun search :: "(string \<Rightarrow> 'a option) \<Rightarrow> string \<Rightarrow> 'a option" where
  "search here [] = here []"
| "search here (c # cs) =
     (case here (c # cs) of
        Some m \<Rightarrow> Some m
      | None \<Rightarrow> search here cs)"

text \<open>
  The pattern \<^verbatim>\<open><([^>]+)> \.(\w+)(?:\s+(.*))?\<close> at the front of a string, with its three
  groups. Each greedy repetition is followed by a character outside its class or by
  an optional part, so the longest repetition is the only one that can match.
\<close>

definition chat_here :: "string \<Rightarrow> (string \<times> string \<times> string option) option" where
  "chat_here s =
     (case lit ''<'' s of
        None \<Rightarrow> None
      | Some r \<Rightarrow>
          (let player = takeWhile (\<lambda>c. c \<noteq> CHR ''>'') r in
           if player = [] then None
           else (case lit ''> .'' (dropWhile (\<lambda>c. c \<noteq> CHR ''>'') r) of
                   None \<Rightarrow> None
                 | Some r2 \<Rightarrow>
                     (let command = takeWhile is_word r2 in
                      if command = [] then None
                      else (case dropWhile is_word r2 of
                              [] \<Rightarrow> Some (player, command, None)
                            | c # r3 \<Rightarrow>
                                if is_space c
                                then Some (player, command,
                                       Some (takeWhile (\<lambda>c. c \<noteq> CHR 0x0A)
                                               (dropWhile is_space r3)))
                                else Some (player, command, None))))))"

text \<open>The pattern \<^verbatim>\<open>(-?\d+\.?\d*)d\<close> at the front of a string: the group and the rest.\<close>

definition number_d :: "string \<Rightarrow> (string \<times> string) option" where
  "number_d s =
     (let sign = (case lit ''-'' s of None \<Rightarrow> [] | Some _ \<Rightarrow> ''-'');
          r = (case lit ''-'' s of None \<Rightarrow> s | Some r' \<Rightarrow> r');
          ds = takeWhile is_digit r;
          r1 = dropWhile is_digit r
      in if ds = [] then None
         else (let dot = (case lit ''.'' r1 of None \<Rightarrow> [] | Some _ \<Rightarrow> ''.'');
                   r2 = (case lit ''.'' r1 of None \<Rightarrow> r1 | Some r' \<Rightarrow> r');
                   fs = takeWhile is_digit r2
               in (case lit ''d'' (dropWhile is_digit r2) of
                     None \<Rightarrow> None
                   | Some r3 \<Rightarrow> Some (sign @ ds @ dot @ fs, r3))))"

text \<open>
  The pattern
  \<^verbatim>\<open>(\w+) has the following entity data: \[(-?\d+\.?\d*)d, (-?\d+\.?\d*)d, (-?\d+\.?\d*)d\]\<close>
  at the front of a string, with its four groups.
\<close>

definition pos_here :: "string \<Rightarrow> (string \<times> string \<times> string \<times> string) option" where
  "pos_here s =
     (let player = takeWhile is_word s in
      if player = [] then None
      else (case lit '' has the following entity data: ['' (dropWhile is_word s) of
              None \<Rightarrow> None
            | Some r1 \<Rightarrow>
                (case number_d r1 of
                   None \<Rightarrow> None
                 | Some (x, r2) \<Rightarrow>
                     (case lit '', '' r2 of
                        None \<Rightarrow> None
                      | Some r3 \<Rightarrow>
                          (case number_d r3 of
                             None \<Rightarrow> None
                           | Some (y, r4) \<Rightarrow>
                               (case lit '', '' r4 of
                                  None \<Rightarrow> None
                                | Some r5 \<Rightarrow>
                                    (case number_d r5 of
                                       None \<Rightarrow> None
                                     | Some (z, r6) \<Rightarrow>
                                         (case lit '']'' r6 of
                                            None \<Rightarrow> None
                                          | Some _ \<Rightarrow> Some (player, x, y, z)))))))))"

text \<open>The branch of \<open>handle_output\<close> taken when the position pattern matches.\<close>

definition position_data :: "state \<Rightarrow> string \<Rightarrow> string \<Rightarrow> string \<Rightarrow> string \<Rightarrow> state" where
  "position_data s player x y z =
     (if player \<in> pending_homes s
      then send_message
             (save_homes
                (s\<lparr>homes := AList.update player (x @ '' '' @ y @ '' '' @ z) (homes s),
                   pending_homes := pending_homes s - {player}\<rparr>))
             player
             (sec @ ''aHome set at '' @ sec @ ''eX:'' @ x @ '' '' @ sec @ ''aY:'' @ y @ '' ''
                @ sec @ ''aZ:'' @ z)
      else (case pending_warps s player of
              Some warp_name \<Rightarrow>
                send_message
                  (save_warps
                     (s\<lparr>pending_warps := (pending_warps s)(player := None),
                        warps :=
                          AList.update warp_name (x @ '' '' @ y @ '' '' @ z) (warps s)\<rparr>))
                  player
                  (sec @ ''aWarp '' @ [CHR 0x27] @ warp_name @ [CHR 0x27] @ '' set at '' @ sec
                     @ ''eX:'' @ x @ '' '' @ sec @ ''aY:'' @ y @ '' '' @ sec @ ''aZ:'' @ z)
            | None \<Rightarrow> s))"

text \<open>
  The body of the loop of \<open>handle_output\<close> for one decoded line: the two patterns are
  searched one after the other, each under its own \<open>if\<close>.
\<close>

definition handle_output :: "state \<Rightarrow> env \<Rightarrow> string \<Rightarrow> state" where
  "handle_output s e raw =
     (let line = strip raw in
      if line = [] then s
      else (let s1 = (case search chat_here line of
                        Some (player, command, args_str) \<Rightarrow>
                          handle_command s e player command
                            (case args_str of
                               None \<Rightarrow> []
                             | Some a \<Rightarrow> if a = [] then [] else split a)
                      | None \<Rightarrow> s)
            in (case search pos_here line of
                  Some (player, x, y, z) \<Rightarrow> position_data s1 player x y z
                | None \<Rightarrow> s1)))"

text \<open>The loop itself, on the lines read so far, each with what its handler reads.\<close>

fun handle_outputs :: "state \<Rightarrow> (env \<times> string) list \<Rightarrow> state" where
  "handle_outputs s [] = s"
| "handle_outputs s ((e, raw) # rest) = handle_outputs (handle_output s e raw) rest"

text \<open>
  The events of a line, as the specification names them: what \<open>handle_output\<close> acts
  on, in the order in which it acts.
\<close>

datatype event =
  ChatCommand string string "string list"
| PositionResponse string string string string

definition chat_events :: "string \<Rightarrow> event list" where
  "chat_events line =
     (case search chat_here line of
        Some (player, command, args_str) \<Rightarrow>
          [ChatCommand player command
             (case args_str of None \<Rightarrow> [] | Some a \<Rightarrow> if a = [] then [] else split a)]
      | None \<Rightarrow> [])"

definition position_events :: "string \<Rightarrow> event list" where
  "position_events line =
     (case search pos_here line of
        Some (player, x, y, z) \<Rightarrow> [PositionResponse player x y z]
      | None \<Rightarrow> [])"

definition classify :: "string \<Rightarrow> event list" where
  "classify raw =
     (let line = strip raw in
      if line = [] then [] else chat_events line @ position_events line)"

fun handle_event :: "env \<Rightarrow> state \<Rightarrow> event \<Rightarrow> state" where
  "handle_event e s (ChatCommand player command args) = handle_command s e player command args"
| "handle_event e s (PositionResponse player x y z) = position_data s player x y z"

text \<open>The two notices of one expired request: to the requester, then to the target.\<close>

definition expiry_notices :: "string \<times> string \<times> real \<Rightarrow> string list" where
  "expiry_notices p =
     (case p of (target, requester, timestamp) \<Rightarrow>
        [''tellraw '' @ requester @ '' {'' @ [CHR 0x22] @ ''text'' @ [CHR 0x22] @ '':''
           @ [CHR 0x22, CHR 0xA7] @ ''cYour TPA request to '' @ target @ '' has expired.''
           @ [CHR 0x22] @ ''}'',
         ''tellraw '' @ target @ '' {'' @ [CHR 0x22] @ ''text'' @ [CHR 0x22] @ '':''
           @ [CHR 0x22, CHR 0xA7] @ ''cTPA request from '' @ requester @ '' has expired.''
           @ [CHR 0x22] @ ''}''])"

text \<open>
  A coordinate as the data model has it: three parts without whitespace, joined by
  single spaces.
\<close>

definition coord_text :: "string \<Rightarrow> bool" where
  "coord_text pos =
     (case split pos of
        [x, y, z] \<Rightarrow> pos = x @ '' '' @ y @ '' '' @ z
      | _ \<Rightarrow> False)"

text \<open>
  A warp mapping as the data model has it: one entry per name, names in lower case,
  values coordinates.
\<close>

definition warp_mapping :: "(string \<times> string) list \<Rightarrow> bool" where
  "warp_mapping m =
     (distinct (map fst m) \<and> list_all (\<lambda>(name, pos). lower name = name \<and> coord_text pos) m)"

text \<open>
  What the handlers keep true of the warps: the warps are a warp mapping, and every
  pending warp name is in lower case.
\<close>

definition warps_inv :: "state \<Rightarrow> bool" where
  "warps_inv s =
     (warp_mapping (warps s) \<and> (\<forall>name\<in>ran (pending_warps s). lower name = name))"

section \<open>The failing bridge\<close>

text \<open>
  \<open>MinecraftServer.execute\<close> writes only to an attached process, and
  \<open>stdin.drain\<close> raises \<open>ConnectionResetError\<close> once the pipe is lost. The methods
  are modelled here for all three conditions of the bridge. A call either returns or
  raises, and in both cases leaves a state behind; \<open>andthen\<close> is the sequence of two
  statements, the second skipped when the first raises.
\<close>

datatype bridge = Detached | Accepting | Lost

datatype outcome = Done state | Raised exn state

fun andthen :: "outcome \<Rightarrow> (state \<Rightarrow> outcome) \<Rightarrow> outcome" where
  "andthen (Done s) f = f s"
| "andthen (Raised ex s) f = Raised ex s"

text \<open>The exception that leaves a call, if any.\<close>

fun raised :: "outcome \<Rightarrow> exn option" where
  "raised (Done s) = None"
| "raised (Raised ex s) = Some ex"

definition execute_on :: "bridge \<Rightarrow> state \<Rightarrow> string \<Rightarrow> outcome" where
  "execute_on b s command =
     (case b of
        Detached \<Rightarrow> Done s
      | Accepting \<Rightarrow> Done (s\<lparr>out := out s @ [command]\<rparr>)
      | Lost \<Rightarrow> Raised ConnectionResetError s)"

definition send_message_on :: "bridge \<Rightarrow> state \<Rightarrow> string \<Rightarrow> string \<Rightarrow> outcome" where
  "send_message_on b s player message = execute_on b s (tellraw player message)"

definition cmd_tpa_on :: "bridge \<Rightarrow> state \<Rightarrow> env \<Rightarrow> string \<Rightarrow> string list \<Rightarrow> outcome" where
  "cmd_tpa_on b s e player args =
     (case args of
        [] \<Rightarrow> send_message_on b s player (sec @ ''cUsage: .tpa <player>'')
      | target # _ \<Rightarrow>
          if target = player
          then send_message_on b s player (sec @ ''cYou cannot teleport to yourself!'')
          else if (case map_of (tpa_requests s) target of
                     Some (existing_requester, _) \<Rightarrow> existing_requester = player
                   | None \<Rightarrow> False)
          then send_message_on b s player
                 (sec @ ''cYou already have a pending request to '' @ target @ ''!'')
          else
            andthen
              (send_message_on b
                 (s\<lparr>tpa_requests := AList.update target (player, now e) (tpa_requests s)\<rparr>)
                 player (sec @ ''aTeleport request sent to '' @ target @ ''!''))
              (\<lambda>s1. send_message_on b s1 target
                 (sec @ ''e'' @ player @ '' '' @ sec @ ''ahas requested to teleport to you. Use ''
                    @ sec @ ''e.tpaccept '' @ sec @ ''aor '' @ sec @ ''e.tpdeny'')))"

definition cmd_tpaccept_on :: "bridge \<Rightarrow> state \<Rightarrow> string \<Rightarrow> outcome" where
  "cmd_tpaccept_on b s player =
     (case map_of (tpa_requests s) player of
        None \<Rightarrow> send_message_on b s player (sec @ ''cNo pending teleport requests!'')
      | Some (requester, _) \<Rightarrow>
          andthen
            (execute_on b (s\<lparr>tpa_requests := AList.delete player (tpa_requests s)\<rparr>)
               (''tp '' @ requester @ '' '' @ player))
            (\<lambda>s1. andthen
               (send_message_on b s1 player
                  (sec @ ''aAccepted '' @ requester @ [CHR 0x27] @ ''s teleport request!''))
               (\<lambda>s2. send_message_on b s2 requester
                  (sec @ ''e'' @ player @ '' '' @ sec
                    @ ''ahas accepted your teleport request!''))))"

definition cmd_tpdeny_on :: "bridge \<Rightarrow> state \<Rightarrow> string \<Rightarrow> outcome" where
  "cmd_tpdeny_on b s player =
     (case map_of (tpa_requests s) player of
        None \<Rightarrow> send_message_on b s player (sec @ ''cNo pending teleport requests!'')
      | Some (requester, _) \<Rightarrow>
          andthen
            (send_message_on b (s\<lparr>tpa_requests := AList.delete player (tpa_requests s)\<rparr>)
               player (sec @ ''cDenied '' @ requester @ [CHR 0x27] @ ''s teleport request!''))
            (\<lambda>s1. send_message_on b s1 requester
               (sec @ ''e'' @ player @ '' '' @ sec @ ''cdenied your teleport request!'')))"

definition cmd_sethome_on :: "bridge \<Rightarrow> state \<Rightarrow> string \<Rightarrow> outcome" where
  "cmd_sethome_on b s player =
     andthen (execute_on b s (''data get entity '' @ player @ '' Pos''))
       (\<lambda>s1. send_message_on b (s1\<lparr>pending_homes := insert player (pending_homes s1)\<rparr>)
          player (sec @ ''aScanning your position...''))"

definition cmd_home_on :: "bridge \<Rightarrow> state \<Rightarrow> string \<Rightarrow> outcome" where
  "cmd_home_on b s player =
     (case map_of (homes s) player of
        Some pos \<Rightarrow>
          andthen (execute_on b s (''tp '' @ player @ '' '' @ pos))
            (\<lambda>s1. send_message_on b s1 player (sec @ ''aTeleported to home!''))
      | None \<Rightarrow> send_message_on b s player (sec @ ''cHome not set! Use .sethome''))"

definition cmd_setwarp_on :: "bridge \<Rightarrow> state \<Rightarrow> string \<Rightarrow> string list \<Rightarrow> outcome" where
  "cmd_setwarp_on b s player args =
     (case args of
        [] \<Rightarrow> send_message_on b s player (sec @ ''cUsage: .setwarp <name>'')
      | name # _ \<Rightarrow>
          andthen (execute_on b s (''data get entity '' @ player @ '' Pos''))
            (\<lambda>s1. send_message_on b (s1\<lparr>pending_warps := (pending_warps s1)(player \<mapsto> lower name)\<rparr>)
               player
               (sec @ ''aScanning position for warp '' @ [CHR 0x27] @ lower name @ [CHR 0x27]
                  @ ''...'')))"

definition cmd_warp_on :: "bridge \<Rightarrow> state \<Rightarrow> string \<Rightarrow> string list \<Rightarrow> outcome" where
  "cmd_warp_on b s player args =
     (case args of
        [] \<Rightarrow> send_message_on b s player (sec @ ''cUsage: .warp <name>'')
      | name # _ \<Rightarrow>
          (case map_of (warps s) (lower name) of
             Some pos \<Rightarrow>
               andthen (execute_on b s (''tp '' @ player @ '' '' @ pos))
                 (\<lambda>s1. send_message_on b s1 player
                    (sec @ ''aTeleported to warp '' @ [CHR 0x27] @ lower name @ [CHR 0x27]
                       @ ''!''))
           | None \<Rightarrow>
               send_message_on b s player
                 (sec @ ''cWarp '' @ [CHR 0x27] @ lower name @ [CHR 0x27] @ '' not found!'')))"

definition cmd_warps_on :: "bridge \<Rightarrow> state \<Rightarrow> string \<Rightarrow> outcome" where
  "cmd_warps_on b s player =
     send_message_on b s player
       (sec @ ''aAvailable warps: '' @ sec @ ''e'' @ join '', '' (map fst (warps s)))"

definition cmd_spawn_on :: "bridge \<Rightarrow> state \<Rightarrow> string \<Rightarrow> outcome" where
  "cmd_spawn_on b s player =
     (case map_of (warps s) ''spawn'' of
        None \<Rightarrow> Raised (KeyError ''spawn'') s
      | Some pos \<Rightarrow>
          andthen (execute_on b s (''tp '' @ player @ '' '' @ pos))
            (\<lambda>s1. send_message_on b s1 player (sec @ ''aTeleported to spawn!'')))"

definition cmd_rtp_on :: "bridge \<Rightarrow> state \<Rightarrow> env \<Rightarrow> string \<Rightarrow> outcome" where
  "cmd_rtp_on b s e player =
     (let radius = rtp_radius;
          x = randint (- radius) radius (draw_x e);
          z = randint (- radius) radius (draw_z e)
      in andthen
           (execute_on b s (''spreadplayers '' @ str_int x @ '' '' @ str_int z
                              @ '' 0 100 false '' @ player))
           (\<lambda>s1. send_message_on b s1 player
              (sec @ ''aRandom teleported! '' @ sec @ ''e(X: '' @ str_int x @ '', Z: ''
                 @ str_int z @ '')'')))"

definition cmd_help_on :: "bridge \<Rightarrow> state \<Rightarrow> string \<Rightarrow> outcome" where
  "cmd_help_on b s player = execute_on b s (''tell '' @ player @ '' '' @ help_msg)"

fun call_on :: "bridge \<Rightarrow> handler \<Rightarrow> state \<Rightarrow> env \<Rightarrow> string \<Rightarrow> string list \<Rightarrow> outcome" where
  "call_on b Tpa s e player args = cmd_tpa_on b s e player args"
| "call_on b Tpaccept s e player args =
     (if args = [] then cmd_tpaccept_on b s player else Raised (too_many ''cmd_tpaccept'' args) s)"
| "call_on b Tpdeny s e player args =
     (if args = [] then cmd_tpdeny_on b s player else Raised (too_many ''cmd_tpdeny'' args) s)"
| "call_on b Sethome s e player args =
     (if args = [] then cmd_sethome_on b s player else Raised (too_many ''cmd_sethome'' args) s)"
| "call_on b Home s e player args =
     (if args = [] then cmd_home_on b s player else Raised (too_many ''cmd_home'' args) s)"
| "call_on b Setwarp s e player args = cmd_setwarp_on b s player args"
| "call_on b Warp s e player args = cmd_warp_on b s player args"
| "call_on b Warps s e player args =
     (if args = [] then cmd_warps_on b s player else Raised (too_many ''cmd_warps'' args) s)"
| "call_on b Spawn s e player args =
     (if args = [] then cmd_spawn_on b s player else Raised (too_many ''cmd_spawn'' args) s)"
| "call_on b Rtp s e player args =
     (if args = [] then cmd_rtp_on b s e player else Raised (too_many ''cmd_rtp'' args) s)"
| "call_on b Help s e player args =
     (if args = [] then cmd_help_on b s player else Raised (too_many ''cmd_help'' args) s)"

text \<open>
  \<open>handle_command\<close> with its \<open>try\<close>: the \<open>except\<close> clause catches what the handler
  raises and reports it through \<open>send_message\<close>, in the state the handler left; what
  that \<open>send_message\<close> raises is outside the \<open>try\<close> and leaves \<open>handle_command\<close>.
\<close>

definition handle_command_on ::
  "bridge \<Rightarrow> state \<Rightarrow> env \<Rightarrow> string \<Rightarrow> string \<Rightarrow> string list \<Rightarrow> outcome" where
  "handle_command_on b s e player command args =
     (case getattr_cmd command of
        Some h \<Rightarrow>
          (case call_on b h s e player args of
             Done s' \<Rightarrow> Done s'
           | Raised ex s1 \<Rightarrow> send_message_on b s1 player (sec @ ''cError: ''
             @ str_exn ex))
      | None \<Rightarrow> send_message_on b s player (sec @ ''cUnknown command: .'' @ command))"

section \<open>Teleport consent: request, accept, deny\<close>

lemma execute_out: "execute s c = s\<lparr>out := out s @ [c]\<rparr>"
  by (simp add: execute_def)

lemma send_message_eq: "send_message s p m = s\<lparr>out := out s @ [tellraw p m]\<rparr>"
  by (simp add: send_message_def execute_def)

text \<open>
  C3. A teleport request whose target is the requester fails: the requester is sent
  the refusal and nothing is stored. A request to a target that already holds a request
  of the same requester fails the same way and leaves the stored request as it is. Any
  other request stores the requester and the current time under the target, in place
  of a request of another requester if there is one, and sends one message to the
  requester and then one to the target; nothing else of the state changes. The
  messages are the \<open>tellraw\<close> commands written to the process, given here in full.
\<close>

theorem cmd_tpa_request:
  "(target = requester \<longrightarrow>
      cmd_tpa s e requester (target # others) =
        s\<lparr>out := out s @ [''tellraw '' @ requester @ '' {'' @ [CHR 0x22] @ ''text''
          @ [CHR 0x22] @ '':'' @ [CHR 0x22, CHR 0xA7] @ ''cYou cannot teleport to yourself!''
          @ [CHR 0x22] @ ''}'']\<rparr>)
   \<and> (target \<noteq> requester \<and> map_of (tpa_requests s) target = Some (requester, stamp) \<longrightarrow>
      cmd_tpa s e requester (target # others) =
        s\<lparr>out := out s @ [''tellraw '' @ requester @ '' {'' @ [CHR 0x22] @ ''text''
          @ [CHR 0x22] @ '':'' @ [CHR 0x22, CHR 0xA7]
          @ ''cYou already have a pending request to '' @ target @ ''!'' @ [CHR 0x22]
          @ ''}'']\<rparr>)
   \<and> (target \<noteq> requester \<and> (\<forall>t. map_of (tpa_requests s) target \<noteq> Some (requester, t)) \<longrightarrow>
      map_of (tpa_requests (cmd_tpa s e requester (target # others))) =
        (map_of (tpa_requests s))(target \<mapsto> (requester, now e))
      \<and> out (cmd_tpa s e requester (target # others)) =
          out s @
            [''tellraw '' @ requester @ '' {'' @ [CHR 0x22] @ ''text'' @ [CHR 0x22] @ '':''
              @ [CHR 0x22, CHR 0xA7] @ ''aTeleport request sent to '' @ target @ ''!''
              @ [CHR 0x22] @ ''}'',
             ''tellraw '' @ target @ '' {'' @ [CHR 0x22] @ ''text'' @ [CHR 0x22] @ '':''
               @ [CHR 0x22, CHR 0xA7] @ ''e'' @ requester @ '' '' @ [CHR 0xA7]
               @ ''ahas requested to teleport to you. Use '' @ [CHR 0xA7] @ ''e.tpaccept ''
               @ [CHR 0xA7] @ ''aor '' @ [CHR 0xA7] @ ''e.tpdeny'' @ [CHR 0x22] @ ''}'']
      \<and> (cmd_tpa s e requester (target # others))\<lparr>tpa_requests := tpa_requests s, out := out s\<rparr> = s)"
proof -
  have nodup: "\<not> (case map_of (tpa_requests s) target of
                     Some (existing_requester, _) \<Rightarrow> existing_requester = requester
                   | None \<Rightarrow> False)"
    if "\<forall>t. map_of (tpa_requests s) target \<noteq> Some (requester, t)"
    using that by (auto split: option.splits)
  show ?thesis
    using nodup
    by (simp add: cmd_tpa_def send_message_eq update_conv' tellraw_def sec_def dq_def)
qed

theorem cmd_tpa_request_witness:
  "cmd_tpa init \<lparr>now = 7, draw_x = 0, draw_z = 0\<rparr> ''A'' [''A''] =
      init\<lparr>out := [''tellraw '' @ ''A'' @ '' {'' @ [CHR 0x22] @ ''text'' @ [CHR 0x22]
        @ '':'' @ [CHR 0x22, CHR 0xA7] @ ''cYou cannot teleport to yourself!'' @ [CHR 0x22]
        @ ''}'']\<rparr>
   \<and> ''B'' \<noteq> ''A''
   \<and> map_of (tpa_requests (init\<lparr>tpa_requests := [(''B'', (''A'', 5))]\<rparr>)) ''B'' = Some (''A'', 5)
   \<and> cmd_tpa (init\<lparr>tpa_requests := [(''B'', (''A'', 5))]\<rparr>) \<lparr>now = 7, draw_x = 0, draw_z = 0\<rparr> ''A'' [''B''] =
      init\<lparr>tpa_requests := [(''B'', (''A'', 5))],
           out := [''tellraw '' @ ''A'' @ '' {'' @ [CHR 0x22] @ ''text'' @ [CHR 0x22] @ '':''
             @ [CHR 0x22, CHR 0xA7] @ ''cYou already have a pending request to '' @ ''B'' @ ''!''
             @ [CHR 0x22] @ ''}'']\<rparr>
   \<and> map_of (tpa_requests (init\<lparr>tpa_requests := [(''B'', (''C'', 5))]\<rparr>)) ''B'' = Some (''C'', 5)
   \<and> map_of (tpa_requests (cmd_tpa (init\<lparr>tpa_requests := [(''B'', (''C'', 5))]\<rparr>)
        \<lparr>now = 7, draw_x = 0, draw_z = 0\<rparr> ''A'' [''B''])) ''B'' = Some (''A'', 7)
   \<and> out (cmd_tpa (init\<lparr>tpa_requests := [(''B'', (''C'', 5))]\<rparr>) \<lparr>now = 7, draw_x = 0, draw_z = 0\<rparr> ''A'' [''B'']) =
       [''tellraw '' @ ''A'' @ '' {'' @ [CHR 0x22] @ ''text'' @ [CHR 0x22] @ '':''
         @ [CHR 0x22, CHR 0xA7] @ ''aTeleport request sent to '' @ ''B'' @ ''!'' @ [CHR 0x22]
         @ ''}'',
        ''tellraw '' @ ''B'' @ '' {'' @ [CHR 0x22] @ ''text'' @ [CHR 0x22] @ '':''
          @ [CHR 0x22, CHR 0xA7] @ ''e'' @ ''A'' @ '' '' @ [CHR 0xA7]
          @ ''ahas requested to teleport to you. Use '' @ [CHR 0xA7] @ ''e.tpaccept ''
          @ [CHR 0xA7] @ ''aor '' @ [CHR 0xA7] @ ''e.tpdeny'' @ [CHR 0x22] @ ''}'']"
  using cmd_tpa_request [where target = "''A''" and requester = "''A''" and s = init
      and e = "\<lparr>now = 7, draw_x = 0, draw_z = 0\<rparr>" and others = "[]"]
    cmd_tpa_request [where target = "''B''" and requester = "''A''" and stamp = 5
      and s = "init\<lparr>tpa_requests := [(''B'', (''A'', 5))]\<rparr>"
      and e = "\<lparr>now = 7, draw_x = 0, draw_z = 0\<rparr>" and others = "[]"]
    cmd_tpa_request [where target = "''B''" and requester = "''A''"
      and s = "init\<lparr>tpa_requests := [(''B'', (''C'', 5))]\<rparr>"
      and e = "\<lparr>now = 7, draw_x = 0, draw_z = 0\<rparr>" and others = "[]"]
  by (simp add: init_def)

text \<open>
  C4. \<open>cmd_tpaccept\<close> and \<open>cmd_tpdeny\<close> send the no-pending-request message, and
  change nothing else, exactly when the consent map has no entry for the player. With
  an entry, each removes it and sends one message to the player and then one to the
  requester; accepting first writes the teleport of the requester to the player. The
  messages are the \<open>tellraw\<close> commands written to the process, given here in full.
\<close>

theorem tpaccept_tpdeny:
  "(map_of (tpa_requests s) target = None \<longrightarrow>
      cmd_tpaccept s target =
        s\<lparr>out := out s @ [''tellraw '' @ target @ '' {'' @ [CHR 0x22] @ ''text''
          @ [CHR 0x22] @ '':'' @ [CHR 0x22, CHR 0xA7] @ ''cNo pending teleport requests!''
          @ [CHR 0x22] @ ''}'']\<rparr>
      \<and> cmd_tpdeny s target =
        s\<lparr>out := out s @ [''tellraw '' @ target @ '' {'' @ [CHR 0x22] @ ''text''
          @ [CHR 0x22] @ '':'' @ [CHR 0x22, CHR 0xA7] @ ''cNo pending teleport requests!''
          @ [CHR 0x22] @ ''}'']\<rparr>)
   \<and> (map_of (tpa_requests s) target = Some (requester, stamp) \<longrightarrow>
      map_of (tpa_requests (cmd_tpaccept s target)) = (map_of (tpa_requests s))(target := None)
      \<and> out (cmd_tpaccept s target) =
          out s @
            [''tp '' @ requester @ '' '' @ target,
             ''tellraw '' @ target @ '' {'' @ [CHR 0x22] @ ''text'' @ [CHR 0x22] @ '':''
               @ [CHR 0x22, CHR 0xA7] @ ''aAccepted '' @ requester @ [CHR 0x27]
               @ ''s teleport request!'' @ [CHR 0x22] @ ''}'',
             ''tellraw '' @ requester @ '' {'' @ [CHR 0x22] @ ''text'' @ [CHR 0x22] @ '':''
               @ [CHR 0x22, CHR 0xA7] @ ''e'' @ target @ '' '' @ [CHR 0xA7]
               @ ''ahas accepted your teleport request!'' @ [CHR 0x22] @ ''}'']
      \<and> (cmd_tpaccept s target)\<lparr>tpa_requests := tpa_requests s, out := out s\<rparr> = s
      \<and> map_of (tpa_requests (cmd_tpdeny s target)) = (map_of (tpa_requests s))(target := None)
      \<and> out (cmd_tpdeny s target) =
          out s @
            [''tellraw '' @ target @ '' {'' @ [CHR 0x22] @ ''text'' @ [CHR 0x22] @ '':''
              @ [CHR 0x22, CHR 0xA7] @ ''cDenied '' @ requester @ [CHR 0x27]
              @ ''s teleport request!'' @ [CHR 0x22] @ ''}'',
             ''tellraw '' @ requester @ '' {'' @ [CHR 0x22] @ ''text'' @ [CHR 0x22] @ '':''
               @ [CHR 0x22, CHR 0xA7] @ ''e'' @ target @ '' '' @ [CHR 0xA7]
               @ ''cdenied your teleport request!'' @ [CHR 0x22] @ ''}'']
      \<and> (cmd_tpdeny s target)\<lparr>tpa_requests := tpa_requests s, out := out s\<rparr> = s)
   \<and> ((cmd_tpaccept s target =
          s\<lparr>out := out s @ [''tellraw '' @ target @ '' {'' @ [CHR 0x22] @ ''text''
            @ [CHR 0x22] @ '':'' @ [CHR 0x22, CHR 0xA7] @ ''cNo pending teleport requests!''
            @ [CHR 0x22] @ ''}'']\<rparr>)
        = (map_of (tpa_requests s) target = None))
   \<and> ((cmd_tpdeny s target =
          s\<lparr>out := out s @ [''tellraw '' @ target @ '' {'' @ [CHR 0x22] @ ''text''
            @ [CHR 0x22] @ '':'' @ [CHR 0x22, CHR 0xA7] @ ''cNo pending teleport requests!''
            @ [CHR 0x22] @ ''}'']\<rparr>)
        = (map_of (tpa_requests s) target = None))"
proof -
  let ?nop = "''tellraw '' @ target @ '' {'' @ [CHR 0x22] @ ''text'' @ [CHR 0x22] @ '':''
    @ [CHR 0x22, CHR 0xA7] @ ''cNo pending teleport requests!'' @ [CHR 0x22] @ ''}''"
  have none: "map_of (tpa_requests s) target = None \<Longrightarrow>
      cmd_tpaccept s target = s\<lparr>out := out s @ [?nop]\<rparr>
      \<and> cmd_tpdeny s target = s\<lparr>out := out s @ [?nop]\<rparr>"
    by (simp add: cmd_tpaccept_def cmd_tpdeny_def send_message_eq tellraw_def sec_def dq_def)
  have some: "cmd_tpaccept s target =
        s\<lparr>tpa_requests := AList.delete target (tpa_requests s),
          out := out s @
                   [''tp '' @ requester @ '' '' @ target,
                    ''tellraw '' @ target @ '' {'' @ [CHR 0x22] @ ''text'' @ [CHR 0x22] @ '':''
                      @ [CHR 0x22, CHR 0xA7] @ ''aAccepted '' @ requester @ [CHR 0x27]
                      @ ''s teleport request!'' @ [CHR 0x22] @ ''}'',
                    ''tellraw '' @ requester @ '' {'' @ [CHR 0x22] @ ''text'' @ [CHR 0x22] @ '':''
                      @ [CHR 0x22, CHR 0xA7] @ ''e'' @ target @ '' '' @ [CHR 0xA7]
                      @ ''ahas accepted your teleport request!'' @ [CHR 0x22] @ ''}'']\<rparr>
      \<and> cmd_tpdeny s target =
        s\<lparr>tpa_requests := AList.delete target (tpa_requests s),
          out := out s @
                   [''tellraw '' @ target @ '' {'' @ [CHR 0x22] @ ''text'' @ [CHR 0x22] @ '':''
                     @ [CHR 0x22, CHR 0xA7] @ ''cDenied '' @ requester @ [CHR 0x27]
                     @ ''s teleport request!'' @ [CHR 0x22] @ ''}'',
                    ''tellraw '' @ requester @ '' {'' @ [CHR 0x22] @ ''text'' @ [CHR 0x22] @ '':''
                      @ [CHR 0x22, CHR 0xA7] @ ''e'' @ target @ '' '' @ [CHR 0xA7]
                      @ ''cdenied your teleport request!'' @ [CHR 0x22] @ ''}'']\<rparr>"
    if "map_of (tpa_requests s) target = Some (requester, t)" for requester t
    using that
    by (simp add: cmd_tpaccept_def cmd_tpdeny_def send_message_eq execute_out tellraw_def
        sec_def dq_def)
  have len: "s\<lparr>tpa_requests := q, out := out s @ xs\<rparr> \<noteq> s\<lparr>out := out s
    @ [x]\<rparr>"
    if "length xs \<noteq> 1" for q xs x
  proof
    assume "s\<lparr>tpa_requests := q, out := out s @ xs\<rparr> = s\<lparr>out := out s
      @ [x]\<rparr>"
    then have "out (s\<lparr>tpa_requests := q, out := out s
      @ xs\<rparr>) = out (s\<lparr>out := out s @ [x]\<rparr>)"
      by (rule arg_cong)
    then have "xs = [x]" by simp
    with that show False by simp
  qed
  have iff: "(cmd_tpaccept s target = s\<lparr>out := out s @ [?nop]\<rparr>)
        = (map_of (tpa_requests s) target = None)
     \<and> (cmd_tpdeny s target = s\<lparr>out := out s @ [?nop]\<rparr>)
        = (map_of (tpa_requests s) target = None)"
  proof (cases "map_of (tpa_requests s) target")
    case None
    with none show ?thesis by simp
  next
    case (Some p)
    obtain r t where p: "p = (r, t)" by (cases p)
    from some [of r t] Some p have e:
      "cmd_tpaccept s target =
        s\<lparr>tpa_requests := AList.delete target (tpa_requests s),
          out := out s @ [''tp '' @ r @ '' '' @ target,
                    ''tellraw '' @ target @ '' {'' @ [CHR 0x22] @ ''text'' @ [CHR 0x22] @ '':''
                      @ [CHR 0x22, CHR 0xA7] @ ''aAccepted '' @ r @ [CHR 0x27]
                      @ ''s teleport request!'' @ [CHR 0x22] @ ''}'',
                    ''tellraw '' @ r @ '' {'' @ [CHR 0x22] @ ''text'' @ [CHR 0x22] @ '':''
                      @ [CHR 0x22, CHR 0xA7] @ ''e'' @ target @ '' '' @ [CHR 0xA7]
                      @ ''ahas accepted your teleport request!'' @ [CHR 0x22] @ ''}'']\<rparr>"
      "cmd_tpdeny s target =
        s\<lparr>tpa_requests := AList.delete target (tpa_requests s),
          out := out s @ [''tellraw '' @ target @ '' {'' @ [CHR 0x22] @ ''text'' @ [CHR 0x22]
            @ '':'' @ [CHR 0x22, CHR 0xA7] @ ''cDenied '' @ r @ [CHR 0x27]
            @ ''s teleport request!'' @ [CHR 0x22] @ ''}'',
                    ''tellraw '' @ r @ '' {'' @ [CHR 0x22] @ ''text'' @ [CHR 0x22] @ '':''
                      @ [CHR 0x22, CHR 0xA7] @ ''e'' @ target @ '' '' @ [CHR 0xA7]
                      @ ''cdenied your teleport request!'' @ [CHR 0x22] @ ''}'']\<rparr>"
      by simp_all
    have "cmd_tpaccept s target \<noteq> s\<lparr>out := out s @ [?nop]\<rparr>"
      unfolding e(1) by (rule len) simp
    moreover have "cmd_tpdeny s target \<noteq> s\<lparr>out := out s @ [?nop]\<rparr>"
      unfolding e(2) by (rule len) simp
    ultimately show ?thesis
      using Some by simp
  qed
  have rest: "map_of (tpa_requests s) target = Some (requester, stamp) \<longrightarrow>
      map_of (tpa_requests (cmd_tpaccept s target)) = (map_of (tpa_requests s))(target := None)
      \<and> out (cmd_tpaccept s target) =
          out s @
            [''tp '' @ requester @ '' '' @ target,
             ''tellraw '' @ target @ '' {'' @ [CHR 0x22] @ ''text'' @ [CHR 0x22] @ '':''
               @ [CHR 0x22, CHR 0xA7] @ ''aAccepted '' @ requester @ [CHR 0x27]
               @ ''s teleport request!'' @ [CHR 0x22] @ ''}'',
             ''tellraw '' @ requester @ '' {'' @ [CHR 0x22] @ ''text'' @ [CHR 0x22] @ '':''
               @ [CHR 0x22, CHR 0xA7] @ ''e'' @ target @ '' '' @ [CHR 0xA7]
               @ ''ahas accepted your teleport request!'' @ [CHR 0x22] @ ''}'']
      \<and> (cmd_tpaccept s target)\<lparr>tpa_requests := tpa_requests s, out := out s\<rparr> = s
      \<and> map_of (tpa_requests (cmd_tpdeny s target)) = (map_of (tpa_requests s))(target := None)
      \<and> out (cmd_tpdeny s target) =
          out s @
            [''tellraw '' @ target @ '' {'' @ [CHR 0x22] @ ''text'' @ [CHR 0x22] @ '':''
              @ [CHR 0x22, CHR 0xA7] @ ''cDenied '' @ requester @ [CHR 0x27]
              @ ''s teleport request!'' @ [CHR 0x22] @ ''}'',
             ''tellraw '' @ requester @ '' {'' @ [CHR 0x22] @ ''text'' @ [CHR 0x22] @ '':''
               @ [CHR 0x22, CHR 0xA7] @ ''e'' @ target @ '' '' @ [CHR 0xA7]
               @ ''cdenied your teleport request!'' @ [CHR 0x22] @ ''}'']
      \<and> (cmd_tpdeny s target)\<lparr>tpa_requests := tpa_requests s, out := out s\<rparr> = s"
  proof
    assume a: "map_of (tpa_requests s) target = Some (requester, stamp)"
    from some [OF a] show "map_of (tpa_requests (cmd_tpaccept s target)) = (map_of (tpa_requests s))(target := None)
      \<and> out (cmd_tpaccept s target) =
          out s @
            [''tp '' @ requester @ '' '' @ target,
             ''tellraw '' @ target @ '' {'' @ [CHR 0x22] @ ''text'' @ [CHR 0x22] @ '':''
               @ [CHR 0x22, CHR 0xA7] @ ''aAccepted '' @ requester @ [CHR 0x27]
               @ ''s teleport request!'' @ [CHR 0x22] @ ''}'',
             ''tellraw '' @ requester @ '' {'' @ [CHR 0x22] @ ''text'' @ [CHR 0x22] @ '':''
               @ [CHR 0x22, CHR 0xA7] @ ''e'' @ target @ '' '' @ [CHR 0xA7]
               @ ''ahas accepted your teleport request!'' @ [CHR 0x22] @ ''}'']
      \<and> (cmd_tpaccept s target)\<lparr>tpa_requests := tpa_requests s, out := out s\<rparr> = s
      \<and> map_of (tpa_requests (cmd_tpdeny s target)) = (map_of (tpa_requests s))(target := None)
      \<and> out (cmd_tpdeny s target) =
          out s @
            [''tellraw '' @ target @ '' {'' @ [CHR 0x22] @ ''text'' @ [CHR 0x22] @ '':''
              @ [CHR 0x22, CHR 0xA7] @ ''cDenied '' @ requester @ [CHR 0x27]
              @ ''s teleport request!'' @ [CHR 0x22] @ ''}'',
             ''tellraw '' @ requester @ '' {'' @ [CHR 0x22] @ ''text'' @ [CHR 0x22] @ '':''
               @ [CHR 0x22, CHR 0xA7] @ ''e'' @ target @ '' '' @ [CHR 0xA7]
               @ ''cdenied your teleport request!'' @ [CHR 0x22] @ ''}'']
      \<and> (cmd_tpdeny s target)\<lparr>tpa_requests := tpa_requests s, out := out s\<rparr> = s"
      by (simp add: delete_conv')
  qed
  from none rest iff show ?thesis by blast
qed

theorem tpaccept_tpdeny_witness:
  "map_of (tpa_requests init) ''B'' = None
   \<and> cmd_tpaccept init ''B'' =
       init\<lparr>out := [''tellraw '' @ ''B'' @ '' {'' @ [CHR 0x22] @ ''text'' @ [CHR 0x22]
         @ '':'' @ [CHR 0x22, CHR 0xA7] @ ''cNo pending teleport requests!'' @ [CHR 0x22]
         @ ''}'']\<rparr>
   \<and> map_of (tpa_requests (init\<lparr>tpa_requests := [(''B'', (''A'', 5))]\<rparr>)) ''B'' = Some (''A'', 5)
   \<and> map_of (tpa_requests (cmd_tpaccept (init\<lparr>tpa_requests := [(''B'', (''A'', 5))]\<rparr>) ''B''))
        ''B'' = None
   \<and> out (cmd_tpaccept (init\<lparr>tpa_requests := [(''B'', (''A'', 5))]\<rparr>) ''B'') =
       [''tp A B'',
        ''tellraw '' @ ''B'' @ '' {'' @ [CHR 0x22] @ ''text'' @ [CHR 0x22] @ '':''
          @ [CHR 0x22, CHR 0xA7] @ ''aAccepted '' @ ''A'' @ [CHR 0x27] @ ''s teleport request!''
          @ [CHR 0x22] @ ''}'',
        ''tellraw '' @ ''A'' @ '' {'' @ [CHR 0x22] @ ''text'' @ [CHR 0x22] @ '':''
          @ [CHR 0x22, CHR 0xA7] @ ''e'' @ ''B'' @ '' '' @ [CHR 0xA7]
          @ ''ahas accepted your teleport request!'' @ [CHR 0x22] @ ''}'']
   \<and> out (cmd_tpdeny (init\<lparr>tpa_requests := [(''B'', (''A'', 5))]\<rparr>) ''B'') =
       [''tellraw '' @ ''B'' @ '' {'' @ [CHR 0x22] @ ''text'' @ [CHR 0x22] @ '':''
         @ [CHR 0x22, CHR 0xA7] @ ''cDenied '' @ ''A'' @ [CHR 0x27] @ ''s teleport request!''
         @ [CHR 0x22] @ ''}'',
        ''tellraw '' @ ''A'' @ '' {'' @ [CHR 0x22] @ ''text'' @ [CHR 0x22] @ '':''
          @ [CHR 0x22, CHR 0xA7] @ ''e'' @ ''B'' @ '' '' @ [CHR 0xA7]
          @ ''cdenied your teleport request!'' @ [CHR 0x22] @ ''}'']"
  using tpaccept_tpdeny [where s = init and target = "''B''"]
    tpaccept_tpdeny [where s = "init\<lparr>tpa_requests := [(''B'', (''A'', 5))]\<rparr>"
      and target = "''B''" and requester = "''A''" and stamp = 5]
  by (simp add: init_def)

section \<open>Command dispatcher: handlers called with too many arguments\<close>





section \<open>Command dispatcher on a failing bridge\<close>

lemma execute_on_accepting: "execute_on Accepting s c = Done (execute s c)"
  by (simp add: execute_on_def execute_def)

lemma send_message_on_accepting: "send_message_on Accepting s p m = Done (send_message s p m)"
  by (simp add: send_message_on_def send_message_def execute_on_accepting)

lemma send_message_on_lost: "send_message_on Lost s p m = Raised ConnectionResetError s"
  by (simp add: send_message_on_def execute_on_def)

lemma execute_on_lost: "execute_on Lost s c = Raised ConnectionResetError s"
  by (simp add: execute_on_def)

lemma call_on_accepting:
  "call_on Accepting h s e player args =
     (case call h s e player args of Inl ex \<Rightarrow> Raised ex s | Inr s' \<Rightarrow> Done s')"
proof (cases h)
  case Tpa
  then show ?thesis
    by (simp add: cmd_tpa_on_def cmd_tpa_def send_message_on_accepting
        split: list.splits option.splits)
next
  case Tpaccept
  then show ?thesis
    by (simp add: cmd_tpaccept_on_def cmd_tpaccept_def send_message_on_accepting
        execute_on_accepting split: option.splits)
next
  case Tpdeny
  then show ?thesis
    by (simp add: cmd_tpdeny_on_def cmd_tpdeny_def send_message_on_accepting
        split: option.splits)
next
  case Sethome
  then show ?thesis
    by (simp add: cmd_sethome_on_def cmd_sethome_def send_message_on_accepting
        execute_on_accepting execute_def)
next
  case Home
  then show ?thesis
    by (simp add: cmd_home_on_def cmd_home_def send_message_on_accepting
        execute_on_accepting split: option.splits)
next
  case Setwarp
  then show ?thesis
    by (simp add: cmd_setwarp_on_def cmd_setwarp_def send_message_on_accepting
        execute_on_accepting execute_def Let_def split: list.splits)
next
  case Warp
  then show ?thesis
    by (simp add: cmd_warp_on_def cmd_warp_def send_message_on_accepting
        execute_on_accepting Let_def split: list.splits option.splits)
next
  case Warps
  then show ?thesis
    by (simp add: cmd_warps_on_def cmd_warps_def send_message_on_accepting)
next
  case Spawn
  then show ?thesis
    by (simp add: cmd_spawn_on_def cmd_spawn_def send_message_on_accepting
        execute_on_accepting split: option.splits)
next
  case Rtp
  then show ?thesis
    by (simp add: cmd_rtp_on_def cmd_rtp_def send_message_on_accepting
        execute_on_accepting Let_def)
next
  case Help
  then show ?thesis
    by (simp add: cmd_help_on_def cmd_help_def execute_on_accepting)
qed

lemma call_on_accepting_raised:
  assumes "call_on Accepting h s e player args = Raised ex s1"
  shows "s1 = s \<and> call h s e player args = Inl ex"
  using assms unfolding call_on_accepting
  by (cases "call h s e player args") simp_all

lemma handle_command_on_accepting:
  "handle_command_on Accepting s e player command args =
     Done (handle_command s e player command args)"
  by (simp add: handle_command_on_def handle_command_def call_on_accepting
      send_message_on_accepting split: option.splits sum.splits)

lemma call_on_lost: "raised (call_on Lost h s e player args) \<noteq> None"
proof (cases h)
  case Tpa
  then show ?thesis
    by (simp add: cmd_tpa_on_def send_message_on_lost split: list.splits)
next
  case Tpaccept
  then show ?thesis
    by (simp add: cmd_tpaccept_on_def send_message_on_lost execute_on_lost split: option.splits)
next
  case Tpdeny
  then show ?thesis
    by (simp add: cmd_tpdeny_on_def send_message_on_lost split: option.splits)
next
  case Sethome
  then show ?thesis
    by (simp add: cmd_sethome_on_def execute_on_lost)
next
  case Home
  then show ?thesis
    by (simp add: cmd_home_on_def send_message_on_lost execute_on_lost split: option.splits)
next
  case Setwarp
  then show ?thesis
    by (simp add: cmd_setwarp_on_def send_message_on_lost execute_on_lost split: list.splits)
next
  case Warp
  then show ?thesis
    by (simp add: cmd_warp_on_def send_message_on_lost execute_on_lost
        split: list.splits option.splits)
next
  case Warps
  then show ?thesis
    by (simp add: cmd_warps_on_def send_message_on_lost)
next
  case Spawn
  then show ?thesis
    by (simp add: cmd_spawn_on_def execute_on_lost split: option.splits)
next
  case Rtp
  then show ?thesis
    by (simp add: cmd_rtp_on_def execute_on_lost Let_def)
next
  case Help
  then show ?thesis
    by (simp add: cmd_help_on_def execute_on_lost)
qed

lemma handle_command_on_lost:
  "raised (handle_command_on Lost s e player command args) = Some ConnectionResetError"
proof (cases "getattr_cmd command")
  case None
  then show ?thesis
    by (simp add: handle_command_on_def send_message_on_lost)
next
  case (Some h)
  from call_on_lost [of h s e player args]
  obtain ex s1 where "call_on Lost h s e player args = Raised ex s1"
    by (cases "call_on Lost h s e player args") simp_all
  with Some show ?thesis
    by (simp add: handle_command_on_def send_message_on_lost)
qed

text \<open>
  C8, as the claim states it, fails when the pipe to the process is lost. Bob's
  \<open>.home\<close> has a handler; its \<open>send_message\<close> raises \<open>ConnectionResetError\<close>; the
  \<open>except\<close> clause catches it, and its own \<open>send_message\<close> raises again, outside the
  \<open>try\<close>: the exception leaves \<open>handle_command\<close> and nothing reaches the player.
\<close>

theorem handle_command_propagates_counterexample:
  "getattr_cmd ''home'' = Some Home
   \<and> call_on Lost Home init \<lparr>now = 0, draw_x = 0, draw_z = 0\<rparr> ''Bob'' [] = Raised ConnectionResetError init
   \<and> handle_command_on Lost init \<lparr>now = 0, draw_x = 0, draw_z = 0\<rparr> ''Bob'' ''home'' [] = Raised ConnectionResetError init"
proof -
  have a: "getattr_cmd ''home'' = Some Home"
    by (simp add: getattr_cmd_def handlers_def)
  have b: "call_on Lost Home init \<lparr>now = 0, draw_x = 0, draw_z = 0\<rparr> ''Bob'' [] = Raised ConnectionResetError init"
    by (simp add: cmd_home_on_def send_message_on_lost init_def)
  have "handle_command_on Lost init \<lparr>now = 0, draw_x = 0, draw_z = 0\<rparr> ''Bob'' ''home'' [] = Raised ConnectionResetError init"
    using a b by (simp add: handle_command_on_def send_message_on_lost)
  with a b show ?thesis
    by blast
qed

text \<open>
  C8, amended. While the bridge accepts every write, \<open>handle_command\<close> returns for
  every command name and argument list. When no handler is registered under the name,
  the unknown-command message is written for the player and nothing else of the state
  changes. When a handler is registered and raises, which it then does before any
  effect, the exception is caught and one error message with the text of the exception
  is written for the player. When the handler returns, its state is the result. Once
  the pipe is lost, every call of \<open>handle_command\<close> ends with \<open>ConnectionResetError\<close>
  leaving it.
\<close>

theorem handle_command_on_bridge:
  "handle_command_on Accepting s e player command args =
     Done (handle_command s e player command args)
   \<and> (getattr_cmd command = None \<longrightarrow>
        handle_command_on Accepting s e player command args =
          Done (s\<lparr>out := out s @ [''tellraw '' @ player @ '' {'' @ [CHR 0x22] @ ''text''
            @ [CHR 0x22] @ '':'' @ [CHR 0x22, CHR 0xA7] @ ''cUnknown command: .'' @ command
            @ [CHR 0x22] @ ''}'']\<rparr>))
   \<and> (getattr_cmd command = Some h \<and> call_on Accepting h s e player args = Raised ex s1 \<longrightarrow>
        s1 = s
        \<and> handle_command_on Accepting s e player command args =
            Done (s\<lparr>out := out s @ [''tellraw '' @ player @ '' {'' @ [CHR 0x22] @ ''text''
              @ [CHR 0x22] @ '':'' @ [CHR 0x22, CHR 0xA7] @ ''cError: '' @ str_exn ex @ [CHR 0x22]
              @ ''}'']\<rparr>))
   \<and> (getattr_cmd command = Some h \<and> call_on Accepting h s e player args = Done s' \<longrightarrow>
        handle_command_on Accepting s e player command args = Done s')
   \<and> raised (handle_command_on Lost s e player command args) = Some ConnectionResetError"
proof -
  have unknown: "handle_command_on Accepting s e player command args =
          Done (s\<lparr>out := out s @ [''tellraw '' @ player @ '' {'' @ [CHR 0x22] @ ''text''
            @ [CHR 0x22] @ '':'' @ [CHR 0x22, CHR 0xA7] @ ''cUnknown command: .'' @ command
            @ [CHR 0x22] @ ''}'']\<rparr>)"
    if "getattr_cmd command = None"
    using that
    by (simp add: handle_command_on_def send_message_on_def execute_on_def tellraw_def sec_def
        dq_def)
  have caught: "s1 = s
        \<and> handle_command_on Accepting s e player command args =
            Done (s\<lparr>out := out s @ [''tellraw '' @ player @ '' {'' @ [CHR 0x22] @ ''text''
              @ [CHR 0x22] @ '':'' @ [CHR 0x22, CHR 0xA7] @ ''cError: '' @ str_exn ex @ [CHR 0x22]
              @ ''}'']\<rparr>)"
    if "getattr_cmd command = Some h" and "call_on Accepting h s e player args = Raised ex s1"
  proof -
    from call_on_accepting_raised [OF that(2)] have "s1 = s"
      by simp
    with that show ?thesis
      by (simp add: handle_command_on_def send_message_on_def execute_on_def tellraw_def sec_def
          dq_def)
  qed
  have returned: "handle_command_on Accepting s e player command args = Done s'"
    if "getattr_cmd command = Some h" and "call_on Accepting h s e player args = Done s'"
    using that by (simp add: handle_command_on_def)
  from unknown caught returned handle_command_on_accepting [of s e player command args]
    handle_command_on_lost [of s e player command args]
  show ?thesis
    by blast
qed

theorem handle_command_on_bridge_witness:
  "getattr_cmd ''fly'' = None
   \<and> handle_command_on Accepting init \<lparr>now = 0, draw_x = 0, draw_z = 0\<rparr> ''Bob'' ''fly'' [''up''] =
       Done (init\<lparr>out := [''tellraw '' @ ''Bob'' @ '' {'' @ [CHR 0x22] @ ''text''
         @ [CHR 0x22] @ '':'' @ [CHR 0x22, CHR 0xA7] @ ''cUnknown command: .fly'' @ [CHR 0x22]
         @ ''}'']\<rparr>)
   \<and> getattr_cmd ''spawn'' = Some Spawn
   \<and> call_on Accepting Spawn init \<lparr>now = 0, draw_x = 0, draw_z = 0\<rparr> ''Bob'' [] = Raised (KeyError ''spawn'') init
   \<and> handle_command_on Accepting init \<lparr>now = 0, draw_x = 0, draw_z = 0\<rparr> ''Bob'' ''spawn'' [] =
       Done (init\<lparr>out := [''tellraw '' @ ''Bob'' @ '' {'' @ [CHR 0x22] @ ''text''
         @ [CHR 0x22] @ '':'' @ [CHR 0x22, CHR 0xA7] @ ''cError: '' @ [CHR 0x27] @ ''spawn''
         @ [CHR 0x27] @ [CHR 0x22] @ ''}'']\<rparr>)
   \<and> raised (handle_command_on Lost init \<lparr>now = 0, draw_x = 0, draw_z = 0\<rparr> ''Bob'' ''spawn'' []) = Some ConnectionResetError"
proof -
  have a: "getattr_cmd ''fly'' = None"
    by (simp add: getattr_cmd_def handlers_def)
  have b: "getattr_cmd ''spawn'' = Some Spawn"
    by (simp add: getattr_cmd_def handlers_def)
  have c: "call_on Accepting Spawn init \<lparr>now = 0, draw_x = 0, draw_z = 0\<rparr> ''Bob'' [] = Raised (KeyError ''spawn'') init"
    by (simp add: cmd_spawn_on_def init_def)
  have o: "out init = []"
    by (simp add: init_def)
  from handle_command_on_bridge [where command = "''fly''" and s = init and player = "''Bob''"
      and args = "[''up'']" and e = "\<lparr>now = 0, draw_x = 0, draw_z = 0\<rparr>", THEN conjunct2, THEN conjunct1] a o
  have 1: "handle_command_on Accepting init \<lparr>now = 0, draw_x = 0, draw_z = 0\<rparr> ''Bob'' ''fly'' [''up''] =
       Done (init\<lparr>out := [''tellraw '' @ ''Bob'' @ '' {'' @ [CHR 0x22] @ ''text''
         @ [CHR 0x22] @ '':'' @ [CHR 0x22, CHR 0xA7] @ ''cUnknown command: .fly'' @ [CHR 0x22]
         @ ''}'']\<rparr>)"
    by simp
  from handle_command_on_bridge [where command = "''spawn''" and s = init and player = "''Bob''"
      and args = "[]" and e = "\<lparr>now = 0, draw_x = 0, draw_z = 0\<rparr>" and h = Spawn and ex = "KeyError ''spawn''" and ?s1.0 = init,
      THEN conjunct2, THEN conjunct2, THEN conjunct1]
    b c o
  have 2: "handle_command_on Accepting init \<lparr>now = 0, draw_x = 0, draw_z = 0\<rparr> ''Bob'' ''spawn'' [] =
       Done (init\<lparr>out := [''tellraw '' @ ''Bob'' @ '' {'' @ [CHR 0x22] @ ''text''
         @ [CHR 0x22] @ '':'' @ [CHR 0x22, CHR 0xA7] @ ''cError: '' @ [CHR 0x27] @ ''spawn''
         @ [CHR 0x27] @ [CHR 0x22] @ ''}'']\<rparr>)"
    by simp
  from handle_command_on_bridge [where command = "''spawn''" and s = init and player = "''Bob''"
      and args = "[]" and e = "\<lparr>now = 0, draw_x = 0, draw_z = 0\<rparr>"]
  have 3: "raised (handle_command_on Lost init \<lparr>now = 0, draw_x = 0, draw_z = 0\<rparr> ''Bob'' ''spawn'' []) = Some ConnectionResetError"
    by blast
  from a b c 1 2 3 show ?thesis
    by blast
qed

section \<open>Teleport consent: the sweep\<close>

lemma float_exponent_binade:
  assumes "2 ^ k \<le> \<bar>x\<bar>" and "\<bar>x\<bar> < 2 ^ Suc k"
  shows "float_exponent x = int k"
proof -
  have "(0::real) < 2 ^ k"
    by simp
  with assms(1) have pos: "0 < \<bar>x\<bar>"
    by linarith
  have a: "2 powr real_of_int (int k) = (2::real) ^ k"
    using powr_realpow [of 2 k] by simp
  have "real_of_int (int k + 1) = real (Suc k)"
    by simp
  then have b: "2 powr real_of_int (int k + 1) = (2::real) ^ Suc k"
    using powr_realpow [of 2 "Suc k"] by (simp only:)
  have "2 powr real_of_int (int k) \<le> \<bar>x\<bar> \<and> \<bar>x\<bar> < 2 powr real_of_int (int k + 1)"
    unfolding a b using assms by blast
  then have "\<lfloor>log 2 \<bar>x\<bar>\<rfloor> = int k"
    using floor_log_eq_powr_iff [OF pos, of 2 "int k"] by simp
  then show ?thesis
    by (simp add: float_exponent_def)
qed

lemma float64_binade:
  assumes "2 ^ k \<le> \<bar>x\<bar>" and "\<bar>x\<bar> < 2 ^ Suc k" and "k \<le> 52"
  shows "float64 x = of_int (round_even (x * 2 ^ (52 - k))) / 2 ^ (52 - k)"
proof -
  have nz: "x \<noteq> 0"
  proof
    assume "x = 0"
    with assms(1) have "(2::real) ^ k \<le> 0"
      by simp
    moreover have "(0::real) < 2 ^ k"
      by simp
    ultimately show False
      by linarith
  qed
  have e: "float_exponent x = int k"
    using assms(1,2) by (rule float_exponent_binade)
  have i: "int k - 52 = - int (52 - k)"
    using assms(3) by simp
  have "2 powr real_of_int (int k - 52) = 2 powr (- real (52 - k))"
    unfolding i by simp
  also have "\<dots> = inverse (2 powr real (52 - k))"
    by (rule powr_minus)
  also have "\<dots> = inverse ((2::real) ^ (52 - k))"
    using powr_realpow [of 2 "52 - k"] by simp
  finally have q: "2 powr real_of_int (float_exponent x - 52) = inverse ((2::real) ^ (52 - k))"
    unfolding e .
  have "float64 x = of_int (round_even (x / 2 powr real_of_int (float_exponent x - 52)))
             * 2 powr real_of_int (float_exponent x - 52)"
    using nz by (simp only: float64_def if_False)
  also have "\<dots> = of_int (round_even (x / inverse ((2::real) ^ (52 - k))))
             * inverse ((2::real) ^ (52 - k))"
    unfolding q ..
  also have "\<dots> = of_int (round_even (x * 2 ^ (52 - k))) / 2 ^ (52 - k)"
    by (simp add: divide_inverse)
  finally show ?thesis .
qed

lemma round_even_int: "round_even (of_int j) = j"
  by (simp add: round_even_def)

lemma float64_int:
  fixes m :: int
  assumes "2 ^ k \<le> \<bar>m\<bar>" and "\<bar>m\<bar> < 2 ^ Suc k" and "k \<le> 52"
  shows "float64 (of_int m) = of_int m"
proof -
  from assms(1) have "real_of_int (2 ^ k) \<le> real_of_int \<bar>m\<bar>"
    by (simp only: of_int_le_iff)
  then have a: "2 ^ k \<le> \<bar>real_of_int m\<bar>"
    by simp
  from assms(2) have "real_of_int \<bar>m\<bar> < real_of_int (2 ^ Suc k)"
    by (simp only: of_int_less_iff)
  then have b: "\<bar>real_of_int m\<bar> < 2 ^ Suc k"
    by simp
  have c: "real_of_int m * 2 ^ (52 - k) = real_of_int (m * 2 ^ (52 - k))"
    by simp
  have "float64 (of_int m) =
          of_int (round_even (real_of_int m * 2 ^ (52 - k))) / 2 ^ (52 - k)"
    using a b assms(3) by (rule float64_binade)
  also have "\<dots> = real_of_int (m * 2 ^ (52 - k)) / 2 ^ (52 - k)"
    unfolding c round_even_int ..
  also have "\<dots> = of_int m"
    by simp
  finally show ?thesis .
qed

lemma float64_values:
  "float64 5 = 5" "float64 15 = 15" "float64 25 = 25" "float64 35 = 35" "float64 45 = 45"
  using float64_int [of 2 5] float64_int [of 3 15] float64_int [of 4 25]
    float64_int [of 5 35] float64_int [of 5 45]
  by simp_all

lemma fsub_rounds_to_30:
  "fsub (8528691794332877 / 2 ^ 48) (5404319552844595 / 2 ^ 54) = 30"
proof -
  have d: "8528691794332877 / 2 ^ 48 - 5404319552844595 / 2 ^ 54
             = (540431955284459533 / 2 ^ 54 :: real)"
    by simp
  have lo: "2 ^ 4 \<le> \<bar>540431955284459533 / 2 ^ 54 :: real\<bar>"
    by simp
  have hi: "\<bar>540431955284459533 / 2 ^ 54 :: real\<bar> < 2 ^ Suc 4"
    by simp
  have m: "540431955284459533 / 2 ^ 54 * 2 ^ (52 - 4) = (540431955284459533 / 64 :: real)"
    by simp
  have r: "round_even (540431955284459533 / 64) = 8444249301319680"
    by (simp add: round_even_def)
  have "float64 (540431955284459533 / 2 ^ 54) =
          of_int (round_even (540431955284459533 / 2 ^ 54 * 2 ^ (52 - 4))) / 2 ^ (52 - 4)"
    using lo hi by (rule float64_binade) simp
  also have "\<dots> = of_int 8444249301319680 / 2 ^ (52 - 4)"
    unfolding m r ..
  also have "\<dots> = 30"
    by simp
  finally show ?thesis
    unfolding fsub_def d .
qed

lemma delete_middle:
  assumes "distinct (map fst (pre @ (k, v) # xs))"
  shows "AList.delete k (pre @ (k, v) # xs) = pre @ xs"
proof -
  from assms have "k \<notin> fst ` set pre" and "k \<notin> fst ` set xs"
    by auto
  have "AList.delete k (pre @ (k, v) # xs) = AList.delete k pre @ AList.delete k xs"
    by (simp add: AList.delete_eq)
  with \<open>k \<notin> fst ` set pre\<close> \<open>k \<notin> fst ` set xs\<close> show ?thesis
    by simp
qed

lemma map_of_middle:
  assumes "distinct (map fst (pre @ (k, v) # xs))"
  shows "map_of (pre @ (k, v) # xs) k = Some v"
proof -
  from assms have "k \<notin> fst ` set pre"
    by auto
  then have "map_of pre k = None"
    by (simp add: map_of_eq_None_iff)
  then show ?thesis
    by (simp add: map_add_def)
qed

lemma expire_filter:
  assumes "distinct (map fst (pre @ xs))" and "tpa_requests s = pre @ xs"
  shows "expire (map fst (filter P xs)) s =
           Inr (s\<lparr>tpa_requests := pre @ filter (\<lambda>p. \<not> P p) xs,
                  out := out s @ concat (map expiry_notices (filter P xs))\<rparr>)"
  using assms
proof (induction xs arbitrary: pre s)
  case Nil
  then show ?case by simp
next
  case (Cons x xs)
  obtain target requester timestamp where x: "x = (target, requester, timestamp)"
    by (cases x) auto
  show ?case
  proof (cases "P x")
    case True
    let ?s1 = "send_message
               (send_message (s\<lparr>tpa_requests := AList.delete target (tpa_requests s)\<rparr>)
                  requester (sec @ ''cYour TPA request to '' @ target @ '' has expired.''))
               target (sec @ ''cTPA request from '' @ requester @ '' has expired.'')"
    from Cons.prems x have look: "map_of (tpa_requests s) target = Some (requester, timestamp)"
      by (simp only: map_of_middle)
    from Cons.prems x have del: "AList.delete target (tpa_requests s) = pre @ xs"
      by (simp only: delete_middle)
    have s1: "?s1 = s\<lparr>tpa_requests := pre @ xs, out := out s @ expiry_notices x\<rparr>"
      by (simp add: del send_message_eq x expiry_notices_def tellraw_def sec_def dq_def)
    from Cons.prems have d: "distinct (map fst (pre @ xs))"
      by simp
    have "expire (map fst (filter P (x # xs))) s = expire (map fst (filter P xs)) ?s1"
      using True look by (simp add: x)
    also have "\<dots> = expire (map fst (filter P xs))
                      (s\<lparr>tpa_requests := pre @ xs, out := out s @ expiry_notices x\<rparr>)"
      unfolding s1 ..
    also have "\<dots> = Inr (s\<lparr>tpa_requests := pre @ xs, out := out s
      @ expiry_notices x\<rparr>
                    \<lparr>tpa_requests := pre @ filter (\<lambda>p. \<not> P p) xs,
                     out := out (s\<lparr>tpa_requests := pre @ xs, out := out s
                       @ expiry_notices x\<rparr>)
                       @ concat (map expiry_notices (filter P xs))\<rparr>)"
      by (rule Cons.IH [OF d]) simp
    finally show ?thesis
      using True by simp
  next
    case False
    from Cons.prems have d: "distinct (map fst ((pre @ [x]) @ xs))"
      and t: "tpa_requests s = (pre @ [x]) @ xs"
      by simp_all
    from Cons.IH [OF d t] False show ?thesis
      by simp
  qed
qed

lemma sweep_eq:
  assumes "distinct (map fst (tpa_requests s))"
  shows "sweep current_time s =
           Inr (s\<lparr>tpa_requests :=
                    filter (\<lambda>(target, requester, timestamp). \<not> 30 < fsub current_time timestamp)
                      (tpa_requests s),
                  out := out s @ concat (map expiry_notices
                    (filter (\<lambda>(target, requester, timestamp). 30 < fsub current_time timestamp)
                       (tpa_requests s)))\<rparr>)"
proof -
  let ?P = "\<lambda>(target, requester, timestamp). tpa_timeout < fsub current_time timestamp"
  have P: "?P = (\<lambda>(target, requester, timestamp). 30 < fsub current_time timestamp)"
    by (simp add: tpa_timeout_def)
  have N: "(\<lambda>p. \<not> (case p of (target, requester, timestamp) \<Rightarrow> 30 < fsub current_time timestamp))
      = (\<lambda>(target, requester, timestamp). \<not> 30 < fsub current_time timestamp)"
    by auto
  from assms have d: "distinct (map fst ([] @ tpa_requests s))"
    by simp
  have "sweep current_time s = expire (map fst (filter ?P (tpa_requests s))) s"
    by (simp add: sweep_def expired_targets_def)
  also have "\<dots> = Inr (s\<lparr>tpa_requests := []
    @ filter (\<lambda>p. \<not> ?P p) (tpa_requests s),
                  out := out s @ concat (map expiry_notices (filter ?P (tpa_requests s)))\<rparr>)"
    by (rule expire_filter [OF d]) simp
  finally show ?thesis
    unfolding P N by simp
qed

lemma all_rounds_Suc:
  fixes Q :: "real \<Rightarrow> bool"
  shows "(\<forall>k\<in>{1..Suc n}. Q (clock + 10 * real k))
           = (Q (clock + 10) \<and> (\<forall>k\<in>{1..n}. Q (clock + 10 + 10 * real k)))"
proof
  assume a: "\<forall>k\<in>{1..Suc n}. Q (clock + 10 * real k)"
  have "(1::nat) \<in> {1..Suc n}"
    by simp
  with a have "Q (clock + 10 * real (1::nat))"
    by blast
  then have first: "Q (clock + 10)"
    by simp
  have "Q (clock + 10 + 10 * real k)" if "k \<in> {1..n}" for k
  proof -
    from that have "Suc k \<in> {1..Suc n}"
      by simp
    with a have "Q (clock + 10 * real (Suc k))"
      by blast
    moreover have "clock + 10 * real (Suc k) = clock + 10 + 10 * real k"
      by simp
    ultimately show ?thesis
      by (simp add: add.assoc)
  qed
  with first show "Q (clock + 10) \<and> (\<forall>k\<in>{1..n}. Q (clock + 10 + 10 * real k))"
    by blast
next
  assume b: "Q (clock + 10) \<and> (\<forall>k\<in>{1..n}. Q (clock + 10 + 10 * real k))"
  show "\<forall>k\<in>{1..Suc n}. Q (clock + 10 * real k)"
  proof
    fix k
    assume k: "k \<in> {1..Suc n}"
    show "Q (clock + 10 * real k)"
    proof (cases "k = 1")
      case True
      with b show ?thesis
        by simp
    next
      case False
      with k obtain j where j: "k = Suc j" "j \<in> {1..n}"
        by (cases k) auto
      with b have "Q (clock + 10 + 10 * real j)"
        by blast
      moreover have "clock + 10 * real (Suc j) = clock + 10 + 10 * real j"
        by simp
      ultimately show ?thesis
        using j(1) by (simp add: add.assoc)
    qed
  qed
qed

lemma check_tpa_timeouts_rounds:
  assumes "distinct (map fst (tpa_requests s))"
  shows "\<exists>s'. check_tpa_timeouts n clock s = Inr (clock + 10 * real n, s')
              \<and> tpa_requests s' =
                  filter (\<lambda>(target, requester, timestamp).
                            \<forall>k\<in>{1..n}. \<not> 30 < fsub (clock + 10 * real k) timestamp)
                    (tpa_requests s)"
  using assms
proof (induction n arbitrary: clock s)
  case 0
  then show ?case by simp
next
  case (Suc n)
  let ?s1 = "s\<lparr>tpa_requests :=
                    filter (\<lambda>(target, requester, timestamp). \<not> 30 < fsub (clock + 10) timestamp)
                      (tpa_requests s),
                  out := out s @ concat (map expiry_notices
                    (filter (\<lambda>(target, requester, timestamp). 30 < fsub (clock + 10) timestamp)
                       (tpa_requests s)))\<rparr>"
  from Suc.prems have "distinct (map fst (tpa_requests ?s1))"
    by (simp add: distinct_map_filter)
  from Suc.IH [OF this, of "clock + 10"] obtain s' where
    run: "check_tpa_timeouts n (clock + 10) ?s1 = Inr (clock + 10 + 10 * real n, s')"
    and left: "tpa_requests s' =
      filter (\<lambda>(target, requester, timestamp).
                \<forall>k\<in>{1..n}. \<not> 30 < fsub (clock + 10 + 10 * real k) timestamp)
        (tpa_requests ?s1)"
    by blast
  have sw: "sweep (clock + sweep_sleep) s = Inr ?s1"
    using sweep_eq [OF Suc.prems, of "clock + 10"] by (simp add: sweep_sleep_def)
  have step: "check_tpa_timeouts (Suc n) clock s = Inr (clock + 10 * real (Suc n), s')"
    using run sw by (simp add: sweep_sleep_def algebra_simps)
  have "tpa_requests s' =
      filter (\<lambda>(target, requester, timestamp).
                \<not> 30 < fsub (clock + 10) timestamp
                \<and> (\<forall>k\<in>{1..n}. \<not> 30 < fsub (clock + 10 + 10 * real k) timestamp))
        (tpa_requests s)"
    unfolding left by (simp add: case_prod_unfold)
  also have "\<dots> =
      filter (\<lambda>(target, requester, timestamp).
                \<forall>k\<in>{1..Suc n}. \<not> 30 < fsub (clock + 10 * real k) timestamp)
        (tpa_requests s)"
    using all_rounds_Suc [of n "\<lambda>t. \<not> 30 < fsub t ts" clock for ts]
    by (simp only:)
  finally show ?case
    using step by blast
qed

text \<open>
  C5. On a consent map with one entry per target, one sweep at time \<open>current_time\<close>
  returns normally. It removes exactly the requests whose age is greater than 30, the
  age being the float difference \<open>fsub current_time timestamp\<close> the code computes, and
  keeps the others in their order. For each removed request, in the order of the map,
  it writes the expiry notice to the requester and then the one to the target, and
  nothing else of the state changes. The loop sleeps 10 before each sweep: on a clock
  that only the sleep advances, \<open>n\<close> rounds started at \<open>clock\<close> end at \<open>clock + 10 * n\<close>
  without an exception, having swept at \<open>clock + 10\<close>, \<open>clock + 20\<close> and so on, so
  that what is left are the requests not older than 30 at any of these times.
\<close>

theorem sweep_removes_expired:
  assumes "distinct (map fst (tpa_requests s))"
  shows "sweep current_time s =
           Inr (s\<lparr>tpa_requests :=
                    filter (\<lambda>(target, requester, timestamp). \<not> 30 < fsub current_time timestamp)
                      (tpa_requests s),
                  out := out s @ concat (map expiry_notices
                    (filter (\<lambda>(target, requester, timestamp). 30 < fsub current_time timestamp)
                       (tpa_requests s)))\<rparr>)
         \<and> map_sum id fst (check_tpa_timeouts n clock s) = Inr (clock + 10 * real n)
         \<and> map_sum id (\<lambda>(t, s'). tpa_requests s') (check_tpa_timeouts n clock s) =
             Inr (filter (\<lambda>(target, requester, timestamp).
                            \<forall>k\<in>{1..n}. \<not> 30 < fsub (clock + 10 * real k) timestamp)
                    (tpa_requests s))"
proof -
  from check_tpa_timeouts_rounds [OF assms, of n clock] obtain s' where
    "check_tpa_timeouts n clock s = Inr (clock + 10 * real n, s')"
    "tpa_requests s' =
       filter (\<lambda>(target, requester, timestamp).
                 \<forall>k\<in>{1..n}. \<not> 30 < fsub (clock + 10 * real k) timestamp)
         (tpa_requests s)"
    by blast
  then have "map_sum id fst (check_tpa_timeouts n clock s) = Inr (clock + 10 * real n)
         \<and> map_sum id (\<lambda>(t, s'). tpa_requests s') (check_tpa_timeouts n clock s) =
             Inr (filter (\<lambda>(target, requester, timestamp).
                            \<forall>k\<in>{1..n}. \<not> 30 < fsub (clock + 10 * real k) timestamp)
                    (tpa_requests s))"
    by simp
  with sweep_eq [OF assms, of current_time] show ?thesis
    by blast
qed

theorem sweep_removes_expired_witness:
  "distinct (map fst (tpa_requests
      (init\<lparr>tpa_requests := [(''B'', (''A'', 0)), (''D'', (''C'', 20))]\<rparr>)))
   \<and> sweep 45 (init\<lparr>tpa_requests := [(''B'', (''A'', 0)), (''D'', (''C'', 20))]\<rparr>) =
       Inr (init\<lparr>tpa_requests := [(''D'', (''C'', 20))],
                 out := [''tellraw '' @ ''A'' @ '' {'' @ [CHR 0x22] @ ''text'' @ [CHR 0x22]
                   @ '':'' @ [CHR 0x22, CHR 0xA7] @ ''cYour TPA request to B has expired.''
                   @ [CHR 0x22] @ ''}'',
                         ''tellraw '' @ ''B'' @ '' {'' @ [CHR 0x22] @ ''text'' @ [CHR 0x22]
                           @ '':'' @ [CHR 0x22, CHR 0xA7] @ ''cTPA request from A has expired.''
                           @ [CHR 0x22] @ ''}'']\<rparr>)
   \<and> distinct (map fst (tpa_requests (init\<lparr>tpa_requests := [(''B'', (''A'', 5))]\<rparr>)))
   \<and> map_sum id fst (check_tpa_timeouts 4 0 (init\<lparr>tpa_requests := [(''B'', (''A'', 5))]\<rparr>))
       = Inr 40
   \<and> map_sum id (\<lambda>(t, s'). tpa_requests s')
        (check_tpa_timeouts 3 0 (init\<lparr>tpa_requests := [(''B'', (''A'', 5))]\<rparr>))
       = Inr [(''B'', (''A'', 5))]
   \<and> map_sum id (\<lambda>(t, s'). tpa_requests s')
        (check_tpa_timeouts 4 0 (init\<lparr>tpa_requests := [(''B'', (''A'', 5))]\<rparr>))
       = Inr []"
proof -
  let ?s1 = "init\<lparr>tpa_requests := [(''B'', (''A'', 0)), (''D'', (''C'', 20))]\<rparr>"
  let ?s0 = "init\<lparr>tpa_requests := [(''B'', (''A'', 5))]\<rparr>"
  have d1: "distinct (map fst (tpa_requests ?s1))"
    by simp
  have d0: "distinct (map fst (tpa_requests ?s0))"
    by simp
  have fs: "fsub 45 0 = 45" "fsub 45 20 = 25" "fsub 10 5 = 5" "fsub 20 5 = 15" "fsub 30 5 = 25"
    "fsub 40 5 = 35"
    by (simp_all add: fsub_def float64_values)
  have three: "k = 1 \<or> k = 2 \<or> k = 3" if "k \<in> {1..3}" for k :: nat
    using that by auto
  have h3: "\<forall>k\<in>{1..3::nat}. \<not> 30 < fsub (0 + 10 * real k) 5"
  proof
    fix k :: nat
    assume "k \<in> {1..3}"
    then have "k = 1 \<or> k = 2 \<or> k = 3"
      by (rule three)
    then show "\<not> 30 < fsub (0 + 10 * real k) 5"
      using fs by auto
  qed
  have "(4::nat) \<in> {1..4}"
    by simp
  moreover have "30 < fsub (0 + 10 * real (4::nat)) 5"
    using fs by simp
  ultimately have h4: "\<not> (\<forall>k\<in>{1..4::nat}. \<not> 30 < fsub (0 + 10 * real k) 5)"
    by blast
  from sweep_removes_expired [OF d1, where current_time = 45 and n = 0 and clock = 0]
  have a: "sweep 45 ?s1 =
       Inr (init\<lparr>tpa_requests := [(''D'', (''C'', 20))],
                 out := [''tellraw '' @ ''A'' @ '' {'' @ [CHR 0x22] @ ''text'' @ [CHR 0x22]
                   @ '':'' @ [CHR 0x22, CHR 0xA7] @ ''cYour TPA request to B has expired.''
                   @ [CHR 0x22] @ ''}'',
                         ''tellraw '' @ ''B'' @ '' {'' @ [CHR 0x22] @ ''text'' @ [CHR 0x22]
                           @ '':'' @ [CHR 0x22, CHR 0xA7] @ ''cTPA request from A has expired.''
                           @ [CHR 0x22] @ ''}'']\<rparr>)"
    by (simp add: init_def expiry_notices_def fs)
  from sweep_removes_expired [OF d0, where current_time = 0 and n = 4 and clock = 0]
  have b: "map_sum id fst (check_tpa_timeouts 4 0 ?s0) = Inr 40"
    by simp
  from sweep_removes_expired [OF d0, where current_time = 0 and n = 3 and clock = 0] h3
  have c: "map_sum id (\<lambda>(t, s'). tpa_requests s') (check_tpa_timeouts 3 0 ?s0)
             = Inr [(''B'', (''A'', 5))]"
    by simp
  from sweep_removes_expired [OF d0, where current_time = 0 and n = 4 and clock = 0] h4
  have d: "map_sum id (\<lambda>(t, s'). tpa_requests s') (check_tpa_timeouts 4 0 ?s0) = Inr []"
    by simp
  from d1 d0 a b c d show ?thesis
    by blast
qed

text \<open>
  The age is the float difference, not the difference of the two reals: the floats
  \<open>30.3\<close> and \<open>0.3\<close> differ by a little more than 30 as reals, their float difference is
  30 (\<open>fsub_rounds_to_30\<close>), and the sweep at \<open>30.3\<close> keeps a request stamped \<open>0.3\<close>.
\<close>

lemma sweep_keeps_rounded_age:
  "30 < (8528691794332877 / 2 ^ 48 - 5404319552844595 / 2 ^ 54 :: real)
   \<and> sweep (8528691794332877 / 2 ^ 48)
         (init\<lparr>tpa_requests := [(''B'', (''A'', 5404319552844595 / 2 ^ 54))]\<rparr>) =
       Inr (init\<lparr>tpa_requests := [(''B'', (''A'', 5404319552844595 / 2 ^ 54))]\<rparr>)"
proof -
  have "30 < (8528691794332877 / 2 ^ 48 - 5404319552844595 / 2 ^ 54 :: real)"
    by simp
  moreover have "sweep (8528691794332877 / 2 ^ 48)
         (init\<lparr>tpa_requests := [(''B'', (''A'', 5404319552844595 / 2 ^ 54))]\<rparr>) =
       Inr (init\<lparr>tpa_requests := [(''B'', (''A'', 5404319552844595 / 2 ^ 54))]\<rparr>)"
  proof -
    have f: "fsub (8528691794332877 / 281474976710656) (5404319552844595 / 18014398509481984)
               = 30"
      using fsub_rounds_to_30 by simp
    show ?thesis
      by (simp add: sweep_def expired_targets_def tpa_timeout_def init_def f)
  qed
  ultimately show ?thesis
    by blast
qed

section \<open>Record store: saving and loading warps\<close>

lemma coord_textD:
  assumes "coord_text pos"
  obtains x y z where "split pos = [x, y, z]" and "pos = x @ '' '' @ y @ '' '' @ z"
  using assms unfolding coord_text_def
  by (auto split: list.splits)

lemma map_of_without_default:
  assumes "distinct (map fst m)"
  shows "map_of (filter (\<lambda>(name, pos). \<not> (name = ''spawn'' \<and> pos = spawn_point)) m) k =
           (if k = ''spawn'' \<and> map_of m ''spawn'' = Some spawn_point then None else map_of m k)"
  using assms
proof (induction m)
  case Nil
  then show ?case by simp
next
  case (Cons a m)
  obtain name pos where a: "a = (name, pos)" by (cases a)
  from Cons.prems a have notin: "name \<notin> fst ` set m" and d: "distinct (map fst m)"
    by auto
  from notin have none: "map_of m name = None"
    by (simp add: map_of_eq_None_iff)
  from notin have nonef:
    "map_of (filter (\<lambda>(name, pos). \<not> (name = ''spawn'' \<and> pos = spawn_point)) m) name = None"
    by (auto simp: map_of_eq_None_iff)
  show ?case
    using Cons.IH [OF d] none nonef by (auto simp: a)
qed

lemma read_warp_rows:
  assumes "warp_mapping m"
  shows "map_of (read_warps (warp_rows m) d) =
           map_of d ++ map_of (filter (\<lambda>(name, pos). \<not> (name = ''spawn'' \<and> pos = spawn_point)) m)"
  using assms
proof (induction m arbitrary: d)
  case Nil
  then show ?case by simp
next
  case (Cons a m)
  let ?keep = "\<lambda>(name, pos). \<not> (name = ''spawn'' \<and> pos = spawn_point)"
  obtain name pos where a: "a = (name, pos)" by (cases a)
  from Cons.prems a have wf: "warp_mapping m" and low: "lower name = name"
    and co: "coord_text pos" and notin: "name \<notin> fst ` set m"
    by (auto simp: warp_mapping_def)
  show ?case
  proof (cases "name = ''spawn'' \<and> pos = spawn_point")
    case True
    with Cons.IH [OF wf, of d] show ?thesis
      by (simp add: a)
  next
    case False
    from co obtain x y z where sp: "split pos = [x, y, z]" and pos: "pos = x @ '' '' @ y @ '' ''
      @ z"
      by (rule coord_textD)
    from notin have "name \<notin> fst ` set (filter ?keep m)"
      by auto
    then have nd: "name \<notin> dom (map_of (filter ?keep m))"
      by (simp add: dom_map_of_conv_image_fst)
    have "warp_rows (a # m) = [name, x, y, z] # warp_rows m"
      using False sp by (simp add: a)
    then have "map_of (read_warps (warp_rows (a # m)) d) =
               map_of (read_warps (warp_rows m) (AList.update name pos d))"
      using low pos by simp
    also have "\<dots> = map_of (AList.update name pos d) ++ map_of (filter ?keep m)"
      by (rule Cons.IH [OF wf])
    also have "\<dots> = (map_of d ++ map_of (filter ?keep m))(name \<mapsto> pos)"
      using nd by (simp add: update_conv' map_add_upd_left)
    also have "\<dots> = map_of d ++ map_of (filter ?keep (a # m))"
      using False by (simp add: a)
    finally show ?thesis .
  qed
qed

lemma warp_rows_names:
  "set (map hd (warp_rows m)) \<subseteq>
     fst ` set (filter (\<lambda>(name, pos). \<not> (name = ''spawn'' \<and> pos = spawn_point)) m)"
proof (induction m)
  case Nil
  then show ?case by simp
next
  case (Cons a m)
  obtain name pos where a: "a = (name, pos)" by (cases a)
  from Cons.IH show ?case
    by (auto simp: a split: list.splits)
qed

text \<open>
  C6. For a warp mapping of the data model, writing the warps file and loading it into
  a fresh handler gives back every entry; the entry \<open>spawn\<close> comes back with the
  value it had, or with the default coordinate when the mapping had none. When
  \<open>spawn\<close> holds the default coordinate, no row of the file is named \<open>spawn\<close>.
\<close>

theorem save_load_warps:
  assumes "warp_mapping (warps s)"
  shows "map_of (warps (load_warps (init\<lparr>warps_file := warps_file (save_warps s)\<rparr>))) =
           (map_of (warps s))
             (''spawn'' \<mapsto> (case map_of (warps s) ''spawn'' of
                                None \<Rightarrow> spawn_point
                              | Some pos \<Rightarrow> pos))
         \<and> (map_of (warps s) ''spawn'' = Some spawn_point \<longrightarrow>
              warps_file (save_warps s) \<noteq> None
              \<and> ''spawn'' \<notin> set (map hd (the (warps_file (save_warps s)))))"
proof -
  let ?keep = "\<lambda>(name, pos). \<not> (name = ''spawn'' \<and> pos = spawn_point)"
  let ?m = "warps s"
  let ?w = "read_warps (warp_rows ?m) []"
  from assms have d: "distinct (map fst ?m)"
    by (simp add: warp_mapping_def)
  have w: "map_of ?w k =
             (if k = ''spawn'' \<and> map_of ?m ''spawn'' = Some spawn_point then None else map_of ?m k)"
    for k
    using read_warp_rows [OF assms, of "[]"] map_of_without_default [OF d, of k]
    by simp
  have loaded: "warps (load_warps (init\<lparr>warps_file := warps_file (save_warps s)\<rparr>)) =
                  (if map_of ?w ''spawn'' = None then AList.update ''spawn'' spawn_point ?w else ?w)"
    by (simp add: load_warps_def save_warps_def init_def Let_def)
  have first: "map_of (warps (load_warps (init\<lparr>warps_file := warps_file (save_warps s)\<rparr>))) =
           (map_of ?m)(''spawn'' \<mapsto> (case map_of ?m ''spawn'' of
                                None \<Rightarrow> spawn_point
                              | Some pos \<Rightarrow> pos))"
  proof
    fix k
    show "map_of (warps (load_warps (init\<lparr>warps_file := warps_file (save_warps s)\<rparr>))) k =
           ((map_of ?m)(''spawn'' \<mapsto> (case map_of ?m ''spawn'' of
                                None \<Rightarrow> spawn_point
                              | Some pos \<Rightarrow> pos))) k"
      unfolding loaded using w [of k] w [of "''spawn''"]
      by (cases "map_of ?m ''spawn''") (auto simp: update_conv')
  qed
  have second: "''spawn'' \<notin> set (map hd (the (warps_file (save_warps s))))"
    if "map_of ?m ''spawn'' = Some spawn_point"
  proof
    assume "''spawn'' \<in> set (map hd (the (warps_file (save_warps s))))"
    then have "''spawn'' \<in> set (map hd (warp_rows ?m))"
      by (simp add: save_warps_def)
    with warp_rows_names [of ?m] have "''spawn'' \<in> fst ` set (filter ?keep ?m)"
      by blast
    then obtain pos where in_m: "(''spawn'', pos) \<in> set ?m" and ne: "pos \<noteq> spawn_point"
      by auto
    from d in_m have "map_of ?m ''spawn'' = Some pos"
      by simp
    with that ne show False by simp
  qed
  from first second show ?thesis
    by (simp add: save_warps_def)
qed

lemma coord_text_examples: "coord_text ''0 64 -3''" "coord_text ''1.5 70 -2.25''"
  by (simp_all add: coord_text_def split_def is_space_def code_def)

theorem save_load_warps_witness:
  "warp_mapping (warps (init\<lparr>warps := [(''spawn'', ''0 64 -3''), (''town'', ''1.5 70 -2.25'')]\<rparr>))
   \<and> warps_file (save_warps (init\<lparr>warps := [(''spawn'', ''0 64 -3''), (''town'', ''1.5 70 -2.25'')]\<rparr>))
       = Some [[''town'', ''1.5'', ''70'', ''-2.25'']]
   \<and> map_of (warps (load_warps (init\<lparr>warps_file := warps_file (save_warps
        (init\<lparr>warps := [(''spawn'', ''0 64 -3''), (''town'', ''1.5 70 -2.25'')]\<rparr>))\<rparr>))) =
       [''town'' \<mapsto> ''1.5 70 -2.25'', ''spawn'' \<mapsto> ''0 64 -3'']"
proof -
  have l: "lower ''spawn'' = ''spawn''" "lower ''town'' = ''town''"
    by (simp_all add: lower_def lower_char_def is_upper_def code_def)
  have wm: "warp_mapping (warps (init\<lparr>warps := [(''spawn'', ''0 64 -3''), (''town'', ''1.5 70 -2.25'')]\<rparr>))"
    by (simp add: warp_mapping_def l coord_text_examples)
  have f: "warps_file (save_warps (init\<lparr>warps := [(''spawn'', ''0 64 -3''), (''town'', ''1.5 70 -2.25'')]\<rparr>))
       = Some [[''town'', ''1.5'', ''70'', ''-2.25'']]"
    by (simp add: save_warps_def spawn_point_def split_def is_space_def code_def)
  from save_load_warps [OF wm] wm f show ?thesis
    by (simp add: spawn_point_def fun_upd_twist)
qed

section \<open>Pending position queries\<close>

lemma search_pos_here_Nil: "search pos_here [] = None"
  by (simp add: pos_here_def)

lemma search_chat_here_Nil: "search chat_here [] = None"
  by (simp add: chat_here_def)



section \<open>Warp names\<close>

text \<open>
  C7. \<open>cmd_setwarp\<close> records the lower-cased name for the player. When the position
  response then arrives for a player who has no pending home, the coordinate is stored
  under that lower-cased name. After that, \<open>cmd_warp\<close> with any name that lower-cases
  to the same text teleports to the stored coordinate.
\<close>

theorem warp_names_case_insensitive:
  assumes "player \<notin> pending_homes s"
      and "lower name' = lower name"
  shows "pending_warps (cmd_setwarp s player (name # others)) player = Some (lower name)
         \<and> map_of (warps (position_data (cmd_setwarp s player (name # others)) player x y z))
              (lower name) = Some (x @ '' '' @ y @ '' '' @ z)
         \<and> cmd_warp (position_data (cmd_setwarp s player (name # others)) player x y z)
              visitor (name' # others') =
            (position_data (cmd_setwarp s player (name # others)) player x y z)
              \<lparr>out := out (position_data (cmd_setwarp s player (name # others)) player x y z) @
                 [''tp '' @ visitor @ '' '' @ x @ '' '' @ y @ '' '' @ z,
                  tellraw visitor
                    (sec @ ''aTeleported to warp '' @ [CHR 0x27] @ lower name @ [CHR 0x27]
                       @ ''!'')]\<rparr>"
proof -
  let ?s1 = "cmd_setwarp s player (name # others)"
  let ?s2 = "position_data ?s1 player x y z"
  have p1: "pending_warps ?s1 player = Some (lower name)"
    and h1: "pending_homes ?s1 = pending_homes s"
    by (simp_all add: cmd_setwarp_def send_message_eq execute_out Let_def)
  from assms(1) h1 have "player \<notin> pending_homes ?s1"
    by simp
  with p1 have w2: "map_of (warps ?s2) (lower name) = Some (x @ '' '' @ y @ '' '' @ z)"
    by (simp add: position_data_def save_warps_def send_message_eq update_conv')
  from w2 assms(2) have "cmd_warp ?s2 visitor (name' # others') =
            ?s2\<lparr>out := out ?s2 @
                 [''tp '' @ visitor @ '' '' @ x @ '' '' @ y @ '' '' @ z,
                  tellraw visitor
                    (sec @ ''aTeleported to warp '' @ [CHR 0x27] @ lower name @ [CHR 0x27]
                       @ ''!'')]\<rparr>"
    by (simp add: cmd_warp_def send_message_eq execute_out Let_def)
  with p1 w2 show ?thesis
    by blast
qed

theorem warp_names_case_insensitive_witness:
  "''P'' \<notin> pending_homes init
   \<and> lower ''TOWN'' = lower ''Town''
   \<and> handle_outputs init
        [(\<lparr>now = 0, draw_x = 0, draw_z = 0\<rparr>, ''<P> .setwarp Town''),
         (\<lparr>now = 1, draw_x = 0, draw_z = 0\<rparr>,
          ''P has the following entity data: [1.5d, 64.0d, -3.25d]''),
         (\<lparr>now = 2, draw_x = 0, draw_z = 0\<rparr>, ''<Q> .warp TOWN'')] =
       cmd_warp (position_data (cmd_setwarp init ''P'' [''Town'']) ''P'' ''1.5'' ''64.0'' ''-3.25'')
         ''Q'' [''TOWN'']
   \<and> warps (cmd_warp
               (position_data (cmd_setwarp init ''P'' [''Town'']) ''P'' ''1.5'' ''64.0'' ''-3.25'')
               ''Q'' [''TOWN'']) = [(''town'', ''1.5 64.0 -3.25'')]
   \<and> out (cmd_warp
             (position_data (cmd_setwarp init ''P'' [''Town'']) ''P'' ''1.5'' ''64.0'' ''-3.25'')
             ''Q'' [''TOWN'']) =
       [''data get entity P Pos'',
        tellraw ''P'' (sec @ ''aScanning position for warp '' @ [CHR 0x27] @ ''town''
          @ [CHR 0x27] @ ''...''),
        tellraw ''P'' (sec @ ''aWarp '' @ [CHR 0x27] @ ''town'' @ [CHR 0x27] @ '' set at '' @ sec
          @ ''eX:1.5 '' @ sec @ ''aY:64.0 '' @ sec @ ''aZ:-3.25''),
        ''tp Q 1.5 64.0 -3.25'',
        tellraw ''Q'' (sec @ ''aTeleported to warp '' @ [CHR 0x27] @ ''town'' @ [CHR 0x27]
          @ ''!'')]"
proof -
  let ?e0 = "\<lparr>now = 0, draw_x = 0, draw_z = 0\<rparr>"
  let ?e1 = "\<lparr>now = 1, draw_x = 0, draw_z = 0\<rparr>"
  let ?e2 = "\<lparr>now = 2, draw_x = 0, draw_z = 0\<rparr>"
  let ?s1 = "cmd_setwarp init ''P'' [''Town'']"
  let ?s2 = "position_data ?s1 ''P'' ''1.5'' ''64.0'' ''-3.25''"
  have a: "''P'' \<notin> pending_homes init"
    by (simp add: init_def)
  have lo: "lower ''TOWN'' = ''town''" "lower ''Town'' = ''town''"
    by code_simp+
  then have b: "lower ''TOWN'' = lower ''Town''"
    by simp
  have l1: "handle_output s ?e0 ''<P> .setwarp Town'' = cmd_setwarp s ''P'' [''Town'']" for s
    by (simp add: handle_output_def chat_here_def pos_here_def strip_def split_def is_space_def
        is_word_def is_digit_def code_def handle_command_def getattr_cmd_def handlers_def)
  have l2: "handle_output s ?e1 ''P has the following entity data: [1.5d, 64.0d, -3.25d]''
              = position_data s ''P'' ''1.5'' ''64.0'' ''-3.25''" for s
    by (simp add: handle_output_def chat_here_def pos_here_def number_d_def strip_def
        is_space_def is_word_def is_digit_def code_def)
  have l3: "handle_output s ?e2 ''<Q> .warp TOWN'' = cmd_warp s ''Q'' [''TOWN'']" for s
    by (simp add: handle_output_def chat_here_def pos_here_def strip_def split_def is_space_def
        is_word_def is_digit_def code_def handle_command_def getattr_cmd_def handlers_def)
  have run: "handle_outputs init
        [(?e0, ''<P> .setwarp Town''),
         (?e1, ''P has the following entity data: [1.5d, 64.0d, -3.25d]''),
         (?e2, ''<Q> .warp TOWN'')] = cmd_warp ?s2 ''Q'' [''TOWN'']"
    by (simp only: handle_outputs.simps l1 l2 l3)
  have s1: "?s1 = init\<lparr>pending_warps := [''P'' \<mapsto> ''town''],
                        out := [''data get entity P Pos'',
                          tellraw ''P'' (sec @ ''aScanning position for warp '' @ [CHR 0x27]
                            @ ''town'' @ [CHR 0x27] @ ''...'')]\<rparr>"
    by (simp add: cmd_setwarp_def lo send_message_eq execute_out init_def)
  have s2: "warps ?s2 = [(''town'', ''1.5 64.0 -3.25'')]"
    "out ?s2 = [''data get entity P Pos'',
        tellraw ''P'' (sec @ ''aScanning position for warp '' @ [CHR 0x27] @ ''town''
          @ [CHR 0x27] @ ''...''),
        tellraw ''P'' (sec @ ''aWarp '' @ [CHR 0x27] @ ''town'' @ [CHR 0x27] @ '' set at '' @ sec
          @ ''eX:1.5 '' @ sec @ ''aY:64.0 '' @ sec @ ''aZ:-3.25'')]"
    unfolding s1 by (simp_all add: position_data_def save_warps_def send_message_eq init_def)
  from warp_names_case_insensitive [OF a b, where others = "[]" and others' = "[]"
      and x = "''1.5''" and y = "''64.0''" and z = "''-3.25''" and visitor = "''Q''"]
  have "cmd_warp ?s2 ''Q'' [''TOWN''] =
          ?s2\<lparr>out := out ?s2 @
                 [''tp Q 1.5 64.0 -3.25'',
                  tellraw ''Q''
                    (sec @ ''aTeleported to warp '' @ [CHR 0x27] @ ''town'' @ [CHR 0x27]
                       @ ''!'')]\<rparr>"
    by (simp add: lo)
  then have fin: "warps (cmd_warp ?s2 ''Q'' [''TOWN'']) = [(''town'', ''1.5 64.0 -3.25'')]"
    "out (cmd_warp ?s2 ''Q'' [''TOWN'']) =
       [''data get entity P Pos'',
        tellraw ''P'' (sec @ ''aScanning position for warp '' @ [CHR 0x27] @ ''town''
          @ [CHR 0x27] @ ''...''),
        tellraw ''P'' (sec @ ''aWarp '' @ [CHR 0x27] @ ''town'' @ [CHR 0x27] @ '' set at '' @ sec
          @ ''eX:1.5 '' @ sec @ ''aY:64.0 '' @ sec @ ''aZ:-3.25''),
        ''tp Q 1.5 64.0 -3.25'',
        tellraw ''Q'' (sec @ ''aTeleported to warp '' @ [CHR 0x27] @ ''town'' @ [CHR 0x27]
          @ ''!'')]"
    using s2 by simp_all
  from a b run fin show ?thesis
    by blast
qed

section \<open>Output classifier\<close>

lemma space_not_word: "is_space c \<Longrightarrow> \<not> is_word c"
  by (auto simp: is_space_def is_word_def is_digit_def)

lemma search_skip:
  assumes "CHR ''<'' \<notin> set pre"
  shows "search chat_here (pre @ CHR ''<'' # rest) = search chat_here (CHR ''<'' # rest)"
  using assms
proof (induction pre)
  case Nil
  then show ?case by simp
next
  case (Cons c pre)
  then have "chat_here (c # pre @ CHR ''<'' # rest) = None"
    by (simp add: chat_here_def)
  with Cons show ?case by simp
qed

lemma split_aux_concat: "concat (split_aux w t) = w @ filter (\<lambda>c. \<not> is_space c) t"
  by (induction t arbitrary: w) auto

lemma split_aux_part:
  assumes "\<forall>c\<in>set w. \<not> is_space c" and "a \<in> set (split_aux w t)"
  shows "a \<noteq> [] \<and> (\<forall>c\<in>set a. \<not> is_space c)"
  using assms
proof (induction t arbitrary: w)
  case Nil
  then show ?case by (auto split: if_splits)
next
  case (Cons x t)
  show ?case
  proof (cases "is_space x")
    case True
    with Cons.prems(2) have "a = w \<and> w \<noteq> [] \<or> a \<in> set (split_aux [] t)"
      by (auto split: if_splits)
    then show ?thesis
    proof
      assume "a = w \<and> w \<noteq> []"
      with Cons.prems(1) show ?thesis by simp
    next
      assume "a \<in> set (split_aux [] t)"
      with Cons.IH [of "[]"] show ?thesis by simp
    qed
  next
    case False
    with Cons.prems(2) have "a \<in> set (split_aux (w @ [x]) t)"
      by simp
    moreover from False Cons.prems(1) have "\<forall>c\<in>set (w @ [x]). \<not> is_space c"
      by simp
    ultimately show ?thesis
      using Cons.IH [of "w @ [x]"] by blast
  qed
qed

lemma split_parts:
  "(\<forall>a\<in>set (split t). a \<noteq> [] \<and> (\<forall>c\<in>set a. \<not> is_space c))
   \<and> concat (split t) = filter (\<lambda>c. \<not> is_space c) t"
  using split_aux_part [of "[]" _ t] split_aux_concat [of "[]" t]
  by (simp add: split_def)

lemma split_dropWhile: "split (dropWhile is_space t) = split t"
  by (induction t) (simp_all add: split_def)

lemma split_blank:
  assumes "dropWhile is_space t = []"
  shows "split t = []"
proof -
  have "split t = split (dropWhile is_space t)"
    by (simp add: split_dropWhile)
  also have "\<dots> = split []"
    by (simp only: assms)
  also have "\<dots> = []"
    by (simp add: split_def)
  finally show ?thesis .
qed

lemma chat_here_grammar:
  assumes "player \<noteq> []" and "CHR ''>'' \<notin> set player"
      and "command \<noteq> []" and "\<forall>c\<in>set command. is_word c"
      and "tail = [] \<or> is_space (hd tail)"
      and "CHR 0x0A \<notin> set tail"
  shows "chat_here (CHR ''<'' # player @ ''> .'' @ command @ tail) =
           Some (player, command,
                 if tail = [] then None else Some (dropWhile is_space tail))"
proof -
  have np: "x \<noteq> CHR ''>''" if "x \<in> set player" for x
    using that assms(2) by auto
  have tw1: "takeWhile (\<lambda>c. c \<noteq> CHR ''>'') (player @ CHR ''>'' # r) = player" for r
    by (simp add: takeWhile_append2 [OF np])
  have dw1: "dropWhile (\<lambda>c. c \<noteq> CHR ''>'') (player
    @ CHR ''>'' # r) = CHR ''>'' # r" for r
    by (simp add: dropWhile_append2 [OF np])
  have nw: "takeWhile is_word tail = []" "dropWhile is_word tail = tail"
    using assms(5) by (cases tail; auto dest: space_not_word)+
  have tw2: "takeWhile is_word (command @ tail) = command"
    using assms(4) nw by (simp add: takeWhile_append2)
  have dw2: "dropWhile is_word (command @ tail) = tail"
    using assms(4) nw by (simp add: dropWhile_append2)
  have step: "chat_here (CHR ''<'' # player @ ''> .'' @ command @ tail) =
      (case tail of
         [] \<Rightarrow> Some (player, command, None)
       | c # r3 \<Rightarrow>
           if is_space c
           then Some (player, command,
                  Some (takeWhile (\<lambda>c. c \<noteq> CHR 0x0A) (dropWhile is_space r3)))
           else Some (player, command, None))"
    using assms(1,3) by (simp add: chat_here_def tw1 dw1 tw2 dw2)
  show ?thesis
  proof (cases tail)
    case Nil
    with step show ?thesis
      by simp
  next
    case (Cons c r3)
    with assms(5) have sp: "is_space c" by simp
    from Cons assms(6) have "CHR 0x0A \<notin> set (dropWhile is_space r3)"
      using set_dropWhileD [of "CHR 0x0A" is_space r3] by auto
    then have "takeWhile (\<lambda>c. c \<noteq> CHR 0x0A) (dropWhile is_space r3) = dropWhile is_space r3"
      by (simp only: takeWhile_eq_all_conv) blast
    with step sp Cons show ?thesis
      by simp
  qed
qed

lemma handle_output_events:
  "handle_output s e raw = foldl (handle_event e) s (classify raw)"
  by (simp add: handle_output_def classify_def chat_events_def position_events_def Let_def
      split: option.splits prod.splits)

lemma position_events_only:
  "ChatCommand p c a \<notin> set (position_events line)"
  by (simp add: position_events_def split: option.splits prod.splits)

text \<open>
  C9. Take a line that, once stripped, is a prefix without \<open><\<close>, then \<open><player>\<close>, a
  space, the prefix character \<open>.\<close>, a command word, and then either nothing or
  whitespace followed by the argument text. The classifier finds the chat pattern with
  this player and this command, produces exactly one chat-command event, and its
  arguments are the argument text split on whitespace: every argument is non-empty and
  free of whitespace, together they are the argument text without its whitespace, and
  there are none when nothing follows the command. \<open>handle_output\<close> calls
  \<open>handle_command\<close> once, with these three values.
\<close>

theorem chat_command_extracted_once:
  assumes "strip raw = pre @ ''<'' @ player @ ''> .'' @ command @ tail"
      and "CHR ''<'' \<notin> set pre"
      and "player \<noteq> []" and "CHR ''>'' \<notin> set player"
      and "command \<noteq> []" and "\<forall>c\<in>set command. is_word c"
      and "tail = [] \<or> is_space (hd tail)"
      and "CHR 0x0A \<notin> set tail"
  shows "chat_events (strip raw) = [ChatCommand player command (split tail)]
         \<and> classify raw = ChatCommand player command (split tail) # position_events (strip raw)
         \<and> length (filter (\<lambda>ev. case ev of ChatCommand p c a \<Rightarrow> True
                                          | PositionResponse p x y z \<Rightarrow> False)
                     (classify raw)) = 1
         \<and> handle_output s e raw =
             foldl (handle_event e) (handle_command s e player command (split tail))
               (position_events (strip raw))
         \<and> (tail = [] \<longrightarrow> split tail = [])
         \<and> (\<forall>a\<in>set (split tail). a \<noteq> [] \<and> (\<forall>c\<in>set a. \<not> is_space c))
         \<and> concat (split tail) = filter (\<lambda>c. \<not> is_space c) tail"
proof -
  let ?rest = "player @ ''> .'' @ command @ tail"
  have "search chat_here (strip raw) = search chat_here (CHR ''<'' # ?rest)"
    using search_skip [OF assms(2), of ?rest] assms(1) by simp
  also have "\<dots> = chat_here (CHR ''<'' # ?rest)"
    using chat_here_grammar [OF assms(3-8)] by simp
  finally have found: "search chat_here (strip raw) =
      Some (player, command, if tail = [] then None else Some (dropWhile is_space tail))"
    using chat_here_grammar [OF assms(3-8)] by simp
  have args: "(case (if tail = [] then None else Some (dropWhile is_space tail)) of
                 None \<Rightarrow> []
               | Some a \<Rightarrow> if a = [] then [] else split a) = split tail"
  proof (cases "tail = []")
    case True
    then show ?thesis
      by (simp add: split_def)
  next
    case False
    show ?thesis
    proof (cases "dropWhile is_space tail = []")
      case True
      with False split_blank [OF True] show ?thesis
        by simp
    next
      case nonblank: False
      with False split_dropWhile [of tail] show ?thesis
        by auto
    qed
  qed
  have ce: "chat_events (strip raw) = [ChatCommand player command (split tail)]"
    unfolding chat_events_def found using args by simp
  from assms(1) have ne: "strip raw \<noteq> []"
    by simp
  then have cl: "classify raw =
      ChatCommand player command (split tail) # position_events (strip raw)"
    by (simp add: classify_def ce)
  have cnt: "length (filter (\<lambda>ev. case ev of ChatCommand p c a \<Rightarrow> True
                                          | PositionResponse p x y z \<Rightarrow> False)
                     (classify raw)) = 1"
    unfolding cl by (simp add: position_events_def split: option.splits prod.splits)
  have ho: "handle_output s e raw =
             foldl (handle_event e) (handle_command s e player command (split tail))
               (position_events (strip raw))"
    by (simp add: handle_output_events cl)
  have "tail = [] \<longrightarrow> split tail = []"
    by (simp add: split_def)
  with ce cl cnt ho split_parts [of tail] show ?thesis
    by blast
qed

theorem chat_command_extracted_once_witness:
  "strip ''[12:00:00] [Server thread/INFO]: <Bob> .tpa  Alice now '' =
     ''[12:00:00] [Server thread/INFO]: '' @ ''<'' @ ''Bob'' @ ''> .'' @ ''tpa'' @ ''  Alice now''
   \<and> CHR ''<'' \<notin> set ''[12:00:00] [Server thread/INFO]: ''
   \<and> ''Bob'' \<noteq> [] \<and> CHR ''>'' \<notin> set ''Bob''
   \<and> ''tpa'' \<noteq> [] \<and> list_all is_word ''tpa''
   \<and> is_space (hd ''  Alice now'')
   \<and> CHR 0x0A \<notin> set ''  Alice now''
   \<and> classify ''[12:00:00] [Server thread/INFO]: <Bob> .tpa  Alice now '' =
       [ChatCommand ''Bob'' ''tpa'' [''Alice'', ''now'']]"
proof -
  let ?raw = "''[12:00:00] [Server thread/INFO]: <Bob> .tpa  Alice now ''"
  have a: "strip ?raw =
     ''[12:00:00] [Server thread/INFO]: '' @ ''<'' @ ''Bob'' @ ''> .'' @ ''tpa'' @ ''  Alice now''"
    by (simp add: strip_def is_space_def code_def)
  have b: "CHR ''<'' \<notin> set ''[12:00:00] [Server thread/INFO]: ''"
    by simp
  have c: "''Bob'' \<noteq> []" "CHR ''>'' \<notin> set ''Bob''" "''tpa'' \<noteq> []"
    by simp_all
  have d: "\<forall>c\<in>set ''tpa''. is_word c"
    by (simp add: is_word_def is_digit_def code_def)
  have f: "''  Alice now'' = [] \<or> is_space (hd ''  Alice now'')"
    by (simp add: is_space_def code_def)
  have g: "CHR 0x0A \<notin> set ''  Alice now''"
    by simp
  have sp: "split ''  Alice now'' = [''Alice'', ''now'']"
    by (simp add: split_def is_space_def code_def)
  have pe: "position_events (strip ?raw) = []"
    unfolding a
    by (simp add: position_events_def pos_here_def is_word_def is_digit_def code_def)
  from chat_command_extracted_once [OF a b c(1) c(2) c(3) d f g]
  have "classify ?raw = ChatCommand ''Bob'' ''tpa'' (split ''  Alice now'')
          # position_events (strip ?raw)"
    by blast
  then have "classify ?raw = [ChatCommand ''Bob'' ''tpa'' [''Alice'', ''now'']]"
    by (simp only: sp pe)
  with a b c d f g show ?thesis
    by (simp add: list_all_iff)
qed

text \<open>
  C1, as the claim states it, fails: a chat line whose message contains the text of
  a position response matches both patterns, and \<open>handle_output\<close> acts on both. Here
  Bob's chat message both sends his teleport request and sets the pending home of Al.
\<close>

theorem classify_both_counterexample:
  "classify ''<Bob> .tpa Al has the following entity data: [1.5d, 64.0d, -3.25d]'' =
     [ChatCommand ''Bob'' ''tpa''
        [''Al'', ''has'', ''the'', ''following'', ''entity'', ''data:'', ''[1.5d,'', ''64.0d,'',
         ''-3.25d]''],
      PositionResponse ''Al'' ''1.5'' ''64.0'' ''-3.25'']
   \<and> tpa_requests (handle_output (init\<lparr>pending_homes := {''Al''}\<rparr>)
        \<lparr>now = 100, draw_x = 0, draw_z = 0\<rparr>
        ''<Bob> .tpa Al has the following entity data: [1.5d, 64.0d, -3.25d]'') =
       [(''Al'', (''Bob'', 100))]
   \<and> homes (handle_output (init\<lparr>pending_homes := {''Al''}\<rparr>)
        \<lparr>now = 100, draw_x = 0, draw_z = 0\<rparr>
        ''<Bob> .tpa Al has the following entity data: [1.5d, 64.0d, -3.25d]'') =
       [(''Al'', ''1.5 64.0 -3.25'')]"
proof -
  let ?raw = "''<Bob> .tpa Al has the following entity data: [1.5d, 64.0d, -3.25d]''"
  have cl: "classify ?raw =
     [ChatCommand ''Bob'' ''tpa''
        [''Al'', ''has'', ''the'', ''following'', ''entity'', ''data:'', ''[1.5d,'', ''64.0d,'',
         ''-3.25d]''],
      PositionResponse ''Al'' ''1.5'' ''64.0'' ''-3.25'']"
    by (simp add: classify_def chat_events_def position_events_def chat_here_def pos_here_def
        number_d_def strip_def split_def is_space_def is_word_def is_digit_def code_def)
  have ho: "handle_output (init\<lparr>pending_homes := {''Al''}\<rparr>)
        \<lparr>now = 100, draw_x = 0, draw_z = 0\<rparr> ?raw =
      position_data
        (cmd_tpa (init\<lparr>pending_homes := {''Al''}\<rparr>) \<lparr>now = 100, draw_x = 0, draw_z = 0\<rparr>
           ''Bob''
           [''Al'', ''has'', ''the'', ''following'', ''entity'', ''data:'', ''[1.5d,'', ''64.0d,'',
            ''-3.25d]''])
        ''Al'' ''1.5'' ''64.0'' ''-3.25''"
    unfolding handle_output_events cl
    by (simp add: handle_command_def getattr_cmd_def handlers_def)
  have st: "tpa_requests (handle_output (init\<lparr>pending_homes := {''Al''}\<rparr>)
        \<lparr>now = 100, draw_x = 0, draw_z = 0\<rparr> ?raw) = [(''Al'', (''Bob'', 100))]"
    "homes (handle_output (init\<lparr>pending_homes := {''Al''}\<rparr>)
        \<lparr>now = 100, draw_x = 0, draw_z = 0\<rparr> ?raw) = [(''Al'', ''1.5 64.0 -3.25'')]"
    unfolding ho
    by (simp_all add: position_data_def cmd_tpa_def send_message_eq save_homes_def init_def)
  from cl st show ?thesis
    by blast
qed

text \<open>
  C1, amended. Every line gives at most two events. There is a chat-command event
  exactly when the chat pattern is found in the stripped line, and a position-response
  event exactly when the position pattern is found there, each searched on its own. A
  line in which both are found gives both, the chat command first, and
  \<open>handle_output\<close> acts on the events of the line in that order.
\<close>

theorem classify_patterns_independent:
  "length (classify raw) \<le> 2
   \<and> ((\<exists>p c a. ChatCommand p c a \<in> set (classify raw))
        = (search chat_here (strip raw) \<noteq> None))
   \<and> ((\<exists>p x y z. PositionResponse p x y z \<in> set (classify raw))
        = (search pos_here (strip raw) \<noteq> None))
   \<and> (search chat_here (strip raw) \<noteq> None \<and> search pos_here (strip raw) \<noteq> None \<longrightarrow>
        (\<exists>p c a q x y z. classify raw = [ChatCommand p c a, PositionResponse q x y z]))
   \<and> handle_output s e raw = foldl (handle_event e) s (classify raw)"
proof (cases "strip raw = []")
  case True
  then show ?thesis
    using search_chat_here_Nil search_pos_here_Nil
    by (simp add: classify_def handle_output_def)
next
  case False
  have ch: "chat_events (strip raw) =
      (case search chat_here (strip raw) of
         None \<Rightarrow> []
       | Some (p, c, a) \<Rightarrow>
           [ChatCommand p c (case a of None \<Rightarrow> [] | Some t \<Rightarrow> if t = [] then [] else split t)])"
    by (simp add: chat_events_def split: option.splits)
  have po: "position_events (strip raw) =
      (case search pos_here (strip raw) of
         None \<Rightarrow> []
       | Some (p, x, y, z) \<Rightarrow> [PositionResponse p x y z])"
    by (simp add: position_events_def split: option.splits)
  from False have cl: "classify raw = chat_events (strip raw) @ position_events (strip raw)"
    by (simp add: classify_def Let_def)
  show ?thesis
    unfolding handle_output_events cl ch po
    by (cases "search chat_here (strip raw)"; cases "search pos_here (strip raw)") auto
qed

theorem classify_patterns_independent_witness:
  "search chat_here (strip ''<Bob> .tpa Al has the following entity data: [1.5d, 64.0d, -3.25d]'')
     \<noteq> None
   \<and> search pos_here (strip ''<Bob> .tpa Al has the following entity data: [1.5d, 64.0d, -3.25d]'')
     \<noteq> None
   \<and> length (classify ''<Bob> .tpa Al has the following entity data: [1.5d, 64.0d, -3.25d]'') = 2"
proof -
  let ?raw = "''<Bob> .tpa Al has the following entity data: [1.5d, 64.0d, -3.25d]''"
  have a: "search chat_here (strip ?raw) \<noteq> None"
    by (simp add: chat_here_def strip_def is_space_def is_word_def is_digit_def code_def)
  have b: "search pos_here (strip ?raw) \<noteq> None"
    by (simp add: pos_here_def number_d_def strip_def is_space_def is_word_def is_digit_def
        code_def)
  from classify_patterns_independent [of ?raw] a b
  obtain p c a q x y z where "classify ?raw = [ChatCommand p c a, PositionResponse q x y z]"
    by blast
  then have "length (classify ?raw) = 2"
    by simp
  with a b show ?thesis
    by blast
qed

section \<open>Warp mappings are what the handlers produce\<close>

text \<open>
  The hypothesis of the round trip is an invariant of \<open>handle_output\<close>: warp names are
  stored lower-cased, and what is stored under them are the three numbers of a position
  response joined by single spaces.
\<close>

lemma lower_char_idem: "lower_char (lower_char c) = lower_char c"
proof (cases "is_upper c")
  case True
  then have "code c + 32 < 256"
    by (auto simp: is_upper_def)
  then have "code (char_of (code c + 32)) = code c + 32"
    by (simp add: code_def)
  with True have "\<not> is_upper (char_of (code c + 32))"
    by (auto simp: is_upper_def)
  with True show ?thesis
    by (simp add: lower_char_def)
next
  case False
  then show ?thesis
    by (simp add: lower_char_def)
qed

lemma lower_idem: "lower (lower s) = lower s"
  by (simp add: lower_def lower_char_idem)

lemma split_aux_run:
  assumes "\<forall>c\<in>set a. \<not> is_space c"
  shows "split_aux w (a @ t) = split_aux (w @ a) t"
  using assms
  by (induction a arbitrary: w) simp_all

lemma coord_text_join:
  assumes "x \<noteq> []" "\<forall>c\<in>set x. \<not> is_space c"
      and "y \<noteq> []" "\<forall>c\<in>set y. \<not> is_space c"
      and "z \<noteq> []" "\<forall>c\<in>set z. \<not> is_space c"
  shows "coord_text (x @ '' '' @ y @ '' '' @ z)"
proof -
  have sp: "is_space CHR '' ''"
    by (simp add: is_space_def code_def)
  have "split (x @ '' '' @ y @ '' '' @ z) = split_aux x (CHR '' '' # y @ CHR '' '' # z)"
    using split_aux_run [OF assms(2), of "[]"] by (simp add: split_def)
  also have "\<dots> = x # split_aux [] (y @ CHR '' '' # z)"
    using assms(1) sp by simp
  also have "\<dots> = x # split_aux y (CHR '' '' # z)"
    using split_aux_run [OF assms(4), of "[]"] by simp
  also have "\<dots> = x # y # split_aux [] (z @ [])"
    using assms(3) sp by simp
  also have "\<dots> = x # y # split_aux z []"
    using split_aux_run [OF assms(6), of "[]" "[]"] by simp
  also have "\<dots> = [x, y, z]"
    using assms(5) by simp
  finally show ?thesis
    by (simp add: coord_text_def)
qed

lemma digit_not_space: "is_digit c \<Longrightarrow> \<not> is_space c"
  by (auto simp: is_digit_def is_space_def)

lemma number_d_text:
  assumes "number_d s = Some (g, r)"
  shows "g \<noteq> [] \<and> (\<forall>c\<in>set g. \<not> is_space c)"
proof -
  define r0 where "r0 = (case lit ''-'' s of None \<Rightarrow> s | Some r' \<Rightarrow> r')"
  define sign where "sign = (case lit ''-'' s of None \<Rightarrow> [] | Some _ \<Rightarrow> ''-'')"
  define r1 where "r1 = dropWhile is_digit r0"
  define dot where "dot = (case lit ''.'' r1 of None \<Rightarrow> [] | Some _ \<Rightarrow> ''.'')"
  define r2 where "r2 = (case lit ''.'' r1 of None \<Rightarrow> r1 | Some r' \<Rightarrow> r')"
  from assms have ne: "takeWhile is_digit r0 \<noteq> []"
    and g: "g = sign @ takeWhile is_digit r0 @ dot @ takeWhile is_digit r2"
    unfolding number_d_def r0_def sign_def r1_def dot_def r2_def Let_def
    by (auto split: if_splits option.splits)
  have s1: "\<forall>c\<in>set sign. \<not> is_space c"
    by (auto simp: sign_def is_space_def code_def split: option.splits)
  have s2: "\<forall>c\<in>set dot. \<not> is_space c"
    by (auto simp: dot_def is_space_def code_def split: option.splits)
  have s3: "\<forall>c\<in>set (takeWhile is_digit t). \<not> is_space c" for t
    using set_takeWhileD [of _ is_digit t] digit_not_space by blast
  from ne g s1 s2 s3 show ?thesis
    by auto
qed

lemma pos_here_texts:
  assumes "pos_here s = Some (player, x, y, z)"
  shows "coord_text (x @ '' '' @ y @ '' '' @ z)"
proof -
  from assms obtain r1 r2 r3 r4 r5 r6 where
    "number_d r1 = Some (x, r2)" "number_d r3 = Some (y, r4)" "number_d r5 = Some (z, r6)"
    unfolding pos_here_def Let_def
    by (auto split: if_splits option.splits prod.splits)
  then show ?thesis
    using number_d_text coord_text_join by metis
qed

lemma search_found:
  assumes "search here s = Some m"
  shows "\<exists>t. here t = Some m"
  using assms
  by (induction s) (auto split: option.splits)

lemma warp_mapping_update:
  assumes "warp_mapping m" and "lower name = name" and "coord_text pos"
  shows "warp_mapping (AList.update name pos m)"
proof -
  have "set (AList.update name pos m) \<subseteq> insert (name, pos) (set m)"
    by (induction m) auto
  with assms show ?thesis
    unfolding warp_mapping_def list_all_iff
    by (auto simp: distinct_update)
qed

lemma position_data_inv:
  assumes "warps_inv s" and "coord_text (x @ '' '' @ y @ '' '' @ z)"
  shows "warps_inv (position_data s player x y z)"
proof (cases "player \<in> pending_homes s")
  case True
  with assms(1) show ?thesis
    by (simp add: position_data_def warps_inv_def send_message_eq save_homes_def)
next
  case False
  show ?thesis
  proof (cases "pending_warps s player")
    case None
    with False assms(1) show ?thesis
      by (simp add: position_data_def)
  next
    case (Some warp_name)
    with assms(1) have low: "lower warp_name = warp_name"
      by (auto simp: warps_inv_def ran_def)
    from assms(1) have r: "\<forall>name\<in>ran ((pending_warps s)(player := None)). lower name = name"
      by (auto simp: warps_inv_def ran_def split: if_splits)
    from assms(1) have "warp_mapping (warps s)"
      by (simp add: warps_inv_def)
    from warp_mapping_update [OF this low assms(2)] r False Some show ?thesis
      by (simp add: position_data_def warps_inv_def send_message_eq save_warps_def)
  qed
qed

lemma call_inv:
  assumes "warps_inv s" and "call h s e player args = Inr s'"
  shows "warps_inv s'"
proof -
  have set: "warps_inv (cmd_setwarp s player args)"
  proof (cases args)
    case Nil
    with assms(1) show ?thesis
      by (simp add: cmd_setwarp_def warps_inv_def send_message_eq)
  next
    case (Cons name rest)
    from assms(1) have "\<forall>n\<in>ran ((pending_warps s)(player \<mapsto> lower name)). lower n = n"
      by (auto simp: warps_inv_def ran_def lower_idem split: if_splits)
    with assms(1) Cons show ?thesis
      by (simp add: cmd_setwarp_def warps_inv_def send_message_eq execute_out Let_def)
  qed
  have same: "warps t = warps s \<Longrightarrow> pending_warps t = pending_warps s \<Longrightarrow> warps_inv t" for t
    using assms(1) by (simp add: warps_inv_def)
  show ?thesis
  proof (cases h)
    case Tpa
    with assms(2) show ?thesis
      by (auto intro!: same simp: cmd_tpa_def send_message_eq split: list.splits if_splits)
  next
    case Tpaccept
    with assms(2) show ?thesis
      by (auto intro!: same simp: cmd_tpaccept_def send_message_eq execute_out
          split: option.splits if_splits)
  next
    case Tpdeny
    with assms(2) show ?thesis
      by (auto intro!: same simp: cmd_tpdeny_def send_message_eq split: option.splits if_splits)
  next
    case Sethome
    with assms(2) show ?thesis
      by (auto intro!: same simp: cmd_sethome_def send_message_eq execute_out split: if_splits)
  next
    case Home
    with assms(2) show ?thesis
      by (auto intro!: same simp: cmd_home_def send_message_eq execute_out
          split: option.splits if_splits)
  next
    case Setwarp
    with assms(2) set show ?thesis
      by auto
  next
    case Warp
    with assms(2) show ?thesis
      by (auto intro!: same simp: cmd_warp_def send_message_eq execute_out Let_def
          split: list.splits option.splits)
  next
    case Warps
    with assms(2) show ?thesis
      by (auto intro!: same simp: cmd_warps_def send_message_eq split: if_splits)
  next
    case Spawn
    with assms(2) show ?thesis
      by (auto intro!: same simp: cmd_spawn_def send_message_eq execute_out
          split: option.splits if_splits)
  next
    case Rtp
    with assms(2) show ?thesis
      by (auto intro!: same simp: cmd_rtp_def send_message_eq execute_out Let_def
          split: if_splits)
  next
    case Help
    with assms(2) show ?thesis
      by (auto intro!: same simp: cmd_help_def execute_out split: if_splits)
  qed
qed

lemma handle_command_inv:
  assumes "warps_inv s"
  shows "warps_inv (handle_command s e player command args)"
proof (cases "getattr_cmd command")
  case None
  with assms show ?thesis
    by (simp add: handle_command_def send_message_eq warps_inv_def)
next
  case (Some h)
  show ?thesis
  proof (cases "call h s e player args")
    case (Inl ex)
    with Some assms show ?thesis
      by (simp add: handle_command_def send_message_eq warps_inv_def)
  next
    case (Inr s')
    with Some call_inv [OF assms Inr] show ?thesis
      by (simp add: handle_command_def)
  qed
qed

lemma warps_inv_start: "warps_inv (load_warps init)"
  by (simp add: warps_inv_def load_warps_def init_def warp_mapping_def coord_text_examples
      spawn_point_def lower_def lower_char_def is_upper_def code_def)

text \<open>
  Every line of output keeps the invariant, and a handler started without a warps file
  has it, so the warps of every state the loop reaches are a warp mapping.
\<close>

theorem handle_output_keeps_warp_mapping:
  assumes "warps_inv s"
  shows "warps_inv (handle_output s e raw)"
proof (cases "strip raw = []")
  case True
  with assms show ?thesis
    by (simp add: handle_output_def)
next
  case False
  define s1 where "s1 =
    (case search chat_here (strip raw) of
       Some (player, command, args_str) \<Rightarrow>
         handle_command s e player command
           (case args_str of None \<Rightarrow> [] | Some a \<Rightarrow> if a = [] then [] else split a)
     | None \<Rightarrow> s)"
  have inv1: "warps_inv s1"
  proof (cases "search chat_here (strip raw)")
    case None
    with assms show ?thesis
      by (simp add: s1_def)
  next
    case (Some m)
    obtain player command args_str where "m = (player, command, args_str)"
      by (rule prod_cases3)
    with Some handle_command_inv [OF assms] show ?thesis
      by (simp add: s1_def)
  qed
  have ho: "handle_output s e raw =
      (case search pos_here (strip raw) of
         Some (player, x, y, z) \<Rightarrow> position_data s1 player x y z
       | None \<Rightarrow> s1)"
    unfolding s1_def handle_output_def Let_def using False by simp
  show ?thesis
  proof (cases "search pos_here (strip raw)")
    case None
    with inv1 show ?thesis
      by (simp add: ho)
  next
    case (Some m)
    obtain p x y z where m: "m = (p, x, y, z)"
      by (rule prod_cases4)
    from Some m have found: "search pos_here (strip raw) = Some (p, x, y, z)"
      by simp
    from search_found [OF found] obtain t where "pos_here t = Some (p, x, y, z)" ..
    then have "coord_text (x @ '' '' @ y @ '' '' @ z)"
      by (rule pos_here_texts)
    from position_data_inv [OF inv1 this] show ?thesis
      by (simp add: ho found)
  qed
qed

end
